theory Spec2Isabelle
  imports Main "HOL-Library.Char_ord" "HOL-Library.List_Lexorder"
begin

section \<open>Data model of the crawler package\<close>

text \<open>
  Go's \<^verbatim>\<open>int\<close> and \<^verbatim>\<open>int64\<close> are modelled as \<^typ>\<open>int\<close>: the only arithmetic
  on them is \<^verbatim>\<open>depth + 1\<close> below \<^verbatim>\<open>MaxDepth\<close> and the job counter, which counts
  jobs held in memory, so no value comes near \<open>2^63\<close>. A \<^verbatim>\<open>time.Time\<close> is a point
  of an abstract clock.
\<close>

type_synonym Time = nat

record Result =
  URL :: string
  Title :: string
  StatusCode :: int
  ContentLength :: int
  Links :: "string list"
  Depth :: int
  Timestamp :: Time

section \<open>Values behind \<^verbatim>\<open>interface{}\<close>, as the storage package inspects them\<close>

text \<open>
  \<^verbatim>\<open>Save(results interface{})\<close> receives a dynamically typed value. The JSON sink
  looks at its dynamic type (a type assertion), the CSV sink walks it by reflection.
  A slice carries its element type; a struct carries, per field in declaration order,
  the field name, its \<^verbatim>\<open>PkgPath\<close> (empty for an exported field) and its \<^verbatim>\<open>json\<close> tag.
\<close>

datatype gotype = T_interface | T_empty_struct | T_Result | T_other

typedecl float64
typedecl opaque

datatype gval =
    GString string
  | GInt int
  | GFloat float64
  | GBool bool
  | GTime Time
  | GStruct "((string \<times> string \<times> string) \<times> gval) list"
  | GSlice gotype "gval list"
  | GOther opaque

text \<open>The declaration of \<^verbatim>\<open>type Result struct\<close> with its tags, as reflection shows it.\<close>

definition reflect_Result :: "Result \<Rightarrow> gval" where
  "reflect_Result r = GStruct
     [((''URL'', '''', ''url''), GString (URL r)),
      ((''Title'', '''', ''title''), GString (Title r)),
      ((''StatusCode'', '''', ''status_code''), GInt (StatusCode r)),
      ((''ContentLength'', '''', ''content_length''), GInt (ContentLength r)),
      ((''Links'', '''', ''links''), GSlice T_other (map GString (Links r))),
      ((''Depth'', '''', ''depth''), GInt (Depth r)),
      ((''Timestamp'', '''', ''timestamp''), GTime (Timestamp r))]"

text \<open>What \<^verbatim>\<open>Start\<close> hands to \<^verbatim>\<open>Storage.Save\<close>: a \<^verbatim>\<open>[]Result\<close>.\<close>

definition results_value :: "Result list \<Rightarrow> gval" where
  "results_value rs = GSlice T_Result (map reflect_Result rs)"

section \<open>The JSON sink\<close>

text \<open>
  \<^verbatim>\<open>getResultCount\<close>: two type assertions, \<^verbatim>\<open>[]interface{}\<close> and \<^verbatim>\<open>[]struct{}\<close>,
  and 0 for every other dynamic type.
\<close>

fun getResultCount :: "gval \<Rightarrow> int" where
  "getResultCount (GSlice T_interface xs) = int (length xs)"
| "getResultCount (GSlice T_empty_struct xs) = int (length xs)"
| "getResultCount _ = 0"

datatype storage_error =
  CreateFailed | EncodeFailed | NotASlice | HeaderWriteFailed | RowWriteFailed

record json_output =
  out_results :: gval
  out_count :: int
  out_timestamp :: Time

text \<open>
  \<^verbatim>\<open>JSONStorage.Save\<close>. The file system and the encoder are outside the program:
  \<open>createOk\<close> says whether \<^verbatim>\<open>os.Create\<close> succeeds, \<open>encodeOk\<close> whether
  \<^verbatim>\<open>encoder.Encode\<close> does, \<open>now\<close> is \<^verbatim>\<open>time.Now()\<close>. The result is the document
  that is encoded.
\<close>

definition json_Save :: "bool \<Rightarrow> bool \<Rightarrow> Time \<Rightarrow> gval \<Rightarrow> storage_error + json_output" where
  "json_Save createOk encodeOk now results =
     (if \<not> createOk then Inl CreateFailed
      else let output = \<lparr>out_results = results,
                          out_count = getResultCount results,
                          out_timestamp = now\<rparr>
           in if \<not> encodeOk then Inl EncodeFailed else Inr output)"

section \<open>The CSV sink\<close>

subsection \<open>\<^verbatim>\<open>strconv\<close>\<close>

fun digits :: "nat \<Rightarrow> string" where
  "digits n = (if n < 10 then [''0123456789'' ! n]
               else digits (n div 10) @ [''0123456789'' ! (n mod 10)])"

declare digits.simps [simp del]

definition FormatInt :: "int \<Rightarrow> string" where
  "FormatInt i = (if i < 0 then CHR ''-'' # digits (nat (- i)) else digits (nat i))"

definition Itoa :: "nat \<Rightarrow> string" where
  "Itoa n = FormatInt (int n)"

definition FormatBool :: "bool \<Rightarrow> string" where
  "FormatBool b = (if b then ''true'' else ''false'')"

subsection \<open>Rendering that the standard library does\<close>

text \<open>
  \<^verbatim>\<open>strconv.FormatFloat\<close>, \<^verbatim>\<open>fmt.Sprintf("%v", _)\<close> and
  \<^verbatim>\<open>Time.Format(time.RFC3339)\<close> are taken as they come.
\<close>

record fmt =
  FormatFloat :: "float64 \<Rightarrow> string"
  Sprintf_v :: "gval \<Rightarrow> string"
  RFC3339 :: "Time \<Rightarrow> string"

text \<open>
  The file behind the \<^verbatim>\<open>csv.Writer\<close>: whether \<^verbatim>\<open>os.Create\<close> succeeds and
  whether the \<open>k\<close>-th call of \<^verbatim>\<open>writer.Write\<close> does.
\<close>

record csv_io =
  createOk :: bool
  writeOk :: "nat \<Rightarrow> bool"

subsection \<open>Reflection\<close>

text \<open>
  The fields of a value of kind \<^verbatim>\<open>reflect.Struct\<close>. A \<^verbatim>\<open>time.Time\<close> is a struct
  too; its three fields are unexported.
\<close>

definition struct_fields :: "opaque \<Rightarrow> gval \<Rightarrow> ((string \<times> string \<times> string) \<times> gval) list option" where
  "struct_fields hidden v =
     (case v of
        GStruct fs \<Rightarrow> Some fs
      | GTime t \<Rightarrow> Some [((''wall'', ''time'', ''''), GOther hidden),
                         ((''ext'', ''time'', ''''), GOther hidden),
                         ((''loc'', ''time'', ''''), GOther hidden)]
      | _ \<Rightarrow> None)"

text \<open>The header loop (lines 59 to 75): one header per exported field, the tag if there is one.\<close>

fun field_headers :: "((string \<times> string \<times> string) \<times> gval) list \<Rightarrow> string list" where
  "field_headers [] = []"
| "field_headers (((name, pkgPath, tag), v) # fs) =
     (if pkgPath \<noteq> '''' then field_headers fs
      else if tag = '''' then name # field_headers fs
      else tag # field_headers fs)"

definition csv_headers :: "((string \<times> string \<times> string) \<times> gval) list \<Rightarrow> string list" where
  "csv_headers fs = field_headers fs @ [''LinksCount'']"

text \<open>The switch on \<^verbatim>\<open>field.Kind()\<close> (lines 103 to 130) for one exported field.\<close>

fun field_cell :: "fmt \<Rightarrow> string \<Rightarrow> gval \<Rightarrow> string" where
  "field_cell fm name (GString s) = s"
| "field_cell fm name (GInt i) = FormatInt i"
| "field_cell fm name (GFloat f) = FormatFloat fm f"
| "field_cell fm name (GBool b) = FormatBool b"
| "field_cell fm name (GTime t) = RFC3339 fm t"
| "field_cell fm name (GStruct fs) = Sprintf_v fm (GStruct fs)"
| "field_cell fm name (GSlice t xs) =
     (if name = ''Links'' then Itoa (length xs) else Sprintf_v fm (GSlice t xs))"
| "field_cell fm name (GOther x) = Sprintf_v fm (GOther x)"

fun field_cells :: "fmt \<Rightarrow> ((string \<times> string \<times> string) \<times> gval) list \<Rightarrow> string list" where
  "field_cells fm [] = []"
| "field_cells fm (((name, pkgPath, tag), v) # fs) =
     (if pkgPath \<noteq> '''' then field_cells fm fs
      else field_cell fm name v # field_cells fm fs)"

definition csv_row :: "fmt \<Rightarrow> opaque \<Rightarrow> gval \<Rightarrow> string list" where
  "csv_row fm hidden item =
     (case struct_fields hidden item of
        Some fs \<Rightarrow> field_cells fm fs
      | None \<Rightarrow> [Sprintf_v fm item])"

text \<open>
  The row loop (lines 87 to 143). \<open>out\<close> is what has been written so far; the
  deferred \<^verbatim>\<open>Flush\<close> keeps it when a later write fails.
\<close>

fun write_rows :: "fmt \<Rightarrow> csv_io \<Rightarrow> opaque \<Rightarrow> gval list \<Rightarrow> string list list
    \<Rightarrow> string list list \<times> storage_error option" where
  "write_rows fm io hidden [] out = (out, None)"
| "write_rows fm io hidden (item # items) out =
     (if writeOk io (length out)
      then write_rows fm io hidden items (out @ [csv_row fm hidden item])
      else (out, Some RowWriteFailed))"

definition csv_Save :: "fmt \<Rightarrow> csv_io \<Rightarrow> opaque \<Rightarrow> gval
    \<Rightarrow> string list list \<times> storage_error option" where
  "csv_Save fm io hidden results =
     (if \<not> createOk io then ([], Some CreateFailed)
      else case results of
        GSlice t [] \<Rightarrow>
          (if writeOk io 0
           then ([[''URL'', ''Title'', ''StatusCode'', ''ContentLength'', ''Depth'',
                   ''Timestamp'', ''LinksCount'']], None)
           else ([], Some HeaderWriteFailed))
      | GSlice t (firstItem # rest) \<Rightarrow>
          (case struct_fields hidden firstItem of
             Some fs \<Rightarrow>
               (if writeOk io 0
                then write_rows fm io hidden (firstItem # rest) [csv_headers fs]
                else ([], Some HeaderWriteFailed))
           | None \<Rightarrow> write_rows fm io hidden (firstItem # rest) [])
      | _ \<Rightarrow> ([], Some NotASlice))"

section \<open>The Go standard library, as far as the crawler calls it\<close>

text \<open>
  A Go \<^verbatim>\<open>string\<close> is a sequence of bytes, here a \<^typ>\<open>string\<close>. An index that Go
  returns as \<^verbatim>\<open>-1\<close> for "not found" is \<open>None\<close>.
\<close>

subsection \<open>\<^verbatim>\<open>strings\<close>\<close>

definition HasPrefix :: "string \<Rightarrow> string \<Rightarrow> bool" where
  "HasPrefix s p = (take (length p) s = p)"

definition HasSuffix :: "string \<Rightarrow> string \<Rightarrow> bool" where
  "HasSuffix s p = (length p \<le> length s \<and> drop (length s - length p) s = p)"

fun Index :: "string \<Rightarrow> string \<Rightarrow> nat option" where
  "Index [] sub = (if sub = [] then Some 0 else None)"
| "Index (c # s) sub =
     (if HasPrefix (c # s) sub then Some 0 else map_option Suc (Index s sub))"

fun LastIndex :: "string \<Rightarrow> string \<Rightarrow> nat option" where
  "LastIndex [] sub = (if sub = [] then Some 0 else None)"
| "LastIndex (c # s) sub =
     (case LastIndex s sub of
        Some i \<Rightarrow> Some (Suc i)
      | None \<Rightarrow> if HasPrefix (c # s) sub then Some 0 else None)"

definition IndexByte :: "string \<Rightarrow> char \<Rightarrow> nat option" where
  "IndexByte s c = Index s [c]"

definition Contains :: "string \<Rightarrow> string \<Rightarrow> bool" where
  "Contains s sub = (Index s sub \<noteq> None)"

text \<open>\<^verbatim>\<open>strings.Cut\<close>: the text before and after the first \<open>sep\<close>, and whether it was found.\<close>

definition Cut :: "string \<Rightarrow> string \<Rightarrow> string \<times> string \<times> bool" where
  "Cut s sep =
     (case Index s sep of
        Some i \<Rightarrow> (take i s, drop (i + length sep) s, True)
      | None \<Rightarrow> (s, '''', False))"

definition isUpper :: "char \<Rightarrow> bool" where
  "isUpper c = (CHR ''A'' \<le> c \<and> c \<le> CHR ''Z'')"

definition isLower :: "char \<Rightarrow> bool" where
  "isLower c = (CHR ''a'' \<le> c \<and> c \<le> CHR ''z'')"

definition isDigit :: "char \<Rightarrow> bool" where
  "isDigit c = (CHR ''0'' \<le> c \<and> c \<le> CHR ''9'')"

text \<open>
  \<^verbatim>\<open>strings.ToLower\<close> and \<^verbatim>\<open>strings.TrimSpace\<close> on ASCII text; bytes from
  \<open>0x80\<close> on are left as they are.
\<close>

definition toLowerByte :: "char \<Rightarrow> char" where
  "toLowerByte c = (if isUpper c then char_of (of_char c + (32::nat)) else c)"

definition ToLower :: "string \<Rightarrow> string" where
  "ToLower s = map toLowerByte s"

definition isSpace :: "char \<Rightarrow> bool" where
  "isSpace c = (c \<in> set [CHR '' '', CHR 0x09, CHR 0x0A, CHR 0x0B, CHR 0x0C, CHR 0x0D])"

definition TrimSpace :: "string \<Rightarrow> string" where
  "TrimSpace s = rev (dropWhile isSpace (rev (dropWhile isSpace s)))"

subsection \<open>\<^verbatim>\<open>net/url\<close>: escaping\<close>

text \<open>
  The crawler parses, edits and prints URLs with \<^verbatim>\<open>net/url\<close>. The package is
  modelled function by function after its Go 1.20 source (the version the repository
  asks for), with \<^verbatim>\<open>viaRequest = false\<close> as \<^verbatim>\<open>url.Parse\<close> has it.
\<close>

datatype encoding =
  encodePath | encodePathSegment | encodeHost | encodeZone | encodeUserPassword
  | encodeQueryComponent | encodeFragment

datatype url_error =
  ControlCharacter | MissingProtocolScheme | FirstSegmentColon | MissingBracket
  | InvalidPort string | InvalidUserinfo | EscapeError string | InvalidHostError string

definition ishex :: "char \<Rightarrow> bool" where
  "ishex c = (isDigit c \<or> (CHR ''a'' \<le> c \<and> c \<le> CHR ''f'') \<or> (CHR ''A'' \<le> c \<and> c \<le> CHR ''F''))"

definition unhex :: "char \<Rightarrow> nat" where
  "unhex c =
     (if isDigit c then of_char c - of_char CHR ''0''
      else if CHR ''a'' \<le> c \<and> c \<le> CHR ''f'' then of_char c - of_char CHR ''a'' + 10
      else if CHR ''A'' \<le> c \<and> c \<le> CHR ''F'' then of_char c - of_char CHR ''A'' + 10
      else 0)"

definition shouldEscape :: "char \<Rightarrow> encoding \<Rightarrow> bool" where
  "shouldEscape c mode =
     (if isLower c \<or> isUpper c \<or> isDigit c then False
      else if (mode = encodeHost \<or> mode = encodeZone) \<and>
              c \<in> set (''!$&()*+,;=:[]<>'' @ [CHR 0x27, CHR 0x22]) then False
      else if c \<in> set ''-_.~'' then False
      else if c \<in> set ''$&+,/:;=?@'' \<and> mode = encodePath then c = CHR ''?''
      else if c \<in> set ''$&+,/:;=?@'' \<and> mode = encodePathSegment then c \<in> set ''/;,?''
      else if c \<in> set ''$&+,/:;=?@'' \<and> mode = encodeUserPassword then c \<in> set ''@/?:''
      else if c \<in> set ''$&+,/:;=?@'' \<and> mode = encodeQueryComponent then True
      else if c \<in> set ''$&+,/:;=?@'' \<and> mode = encodeFragment then False
      else if mode = encodeFragment \<and> c \<in> set ''!()*'' then False
      else True)"

text \<open>The first loop of \<^verbatim>\<open>unescape\<close>: every \<^verbatim>\<open>%\<close> is followed by two hex digits,
  and a host holds no byte that must be escaped.\<close>

fun unescape_check :: "encoding \<Rightarrow> string \<Rightarrow> url_error option" where
  "unescape_check mode [] = None"
| "unescape_check mode [c] =
     (if c = CHR ''%'' then Some (EscapeError [c])
      else if c = CHR ''+'' then None
      else if (mode = encodeHost \<or> mode = encodeZone) \<and> of_char c < (0x80::nat) \<and>
              shouldEscape c encodeHost then Some (InvalidHostError [c])
      else None)"
| "unescape_check mode [c, a] =
     (if c = CHR ''%'' then Some (EscapeError [c, a])
      else if c = CHR ''+'' then unescape_check mode [a]
      else if (mode = encodeHost \<or> mode = encodeZone) \<and> of_char c < (0x80::nat) \<and>
              shouldEscape c encodeHost then Some (InvalidHostError [c])
      else unescape_check mode [a])"
| "unescape_check mode (c # a # b # s) =
     (if c = CHR ''%'' then
        (if \<not> ishex a \<or> \<not> ishex b then Some (EscapeError [c, a, b])
         else if mode = encodeHost \<and> unhex a < 8 \<and> [c, a, b] \<noteq> ''%25''
           then Some (EscapeError [c, a, b])
         else if mode = encodeZone \<and> [c, a, b] \<noteq> ''%25'' \<and>
                 char_of (unhex a * 16 + unhex b) \<noteq> CHR '' '' \<and>
                 shouldEscape (char_of (unhex a * 16 + unhex b)) encodeHost
           then Some (EscapeError [c, a, b])
         else unescape_check mode s)
      else if c = CHR ''+'' then unescape_check mode (a # b # s)
      else if (mode = encodeHost \<or> mode = encodeZone) \<and> of_char c < (0x80::nat) \<and>
              shouldEscape c encodeHost then Some (InvalidHostError [c])
      else unescape_check mode (a # b # s))"

text \<open>The second loop of \<^verbatim>\<open>unescape\<close>, on a string that passed the first.\<close>

fun unescape_decode :: "encoding \<Rightarrow> string \<Rightarrow> string" where
  "unescape_decode mode (c # a # b # s) =
     (if c = CHR ''%'' then char_of (unhex a * 16 + unhex b) # unescape_decode mode s
      else if c = CHR ''+'' \<and> mode = encodeQueryComponent
        then CHR '' '' # unescape_decode mode (a # b # s)
      else c # unescape_decode mode (a # b # s))"
| "unescape_decode mode (c # s) =
     (if c = CHR ''+'' \<and> mode = encodeQueryComponent then CHR '' '' # unescape_decode mode s
      else c # unescape_decode mode s)"
| "unescape_decode mode [] = []"

definition unescape :: "string \<Rightarrow> encoding \<Rightarrow> url_error + string" where
  "unescape s mode =
     (case unescape_check mode s of
        Some e \<Rightarrow> Inl e
      | None \<Rightarrow> Inr (unescape_decode mode s))"

definition escapeByte :: "encoding \<Rightarrow> char \<Rightarrow> string" where
  "escapeByte mode c =
     (if shouldEscape c mode then
        (if c = CHR '' '' \<and> mode = encodeQueryComponent then ''+''
         else [CHR ''%'', ''0123456789ABCDEF'' ! (of_char c div 16),
               ''0123456789ABCDEF'' ! (of_char c mod 16)])
      else [c])"

definition escape :: "string \<Rightarrow> encoding \<Rightarrow> string" where
  "escape s mode = concat (map (escapeByte mode) s)"

definition QueryUnescape :: "string \<Rightarrow> url_error + string" where
  "QueryUnescape s = unescape s encodeQueryComponent"

definition QueryEscape :: "string \<Rightarrow> string" where
  "QueryEscape s = escape s encodeQueryComponent"

text \<open>\<^verbatim>\<open>validEncoded\<close>: the bytes a raw path or fragment may hold.\<close>

definition validEncoded :: "string \<Rightarrow> encoding \<Rightarrow> bool" where
  "validEncoded s mode =
     list_all (\<lambda>c. c \<in> set (''!$&()*+,;=:@[]%'' @ [CHR 0x27]) \<or> \<not> shouldEscape c mode) s"

subsection \<open>\<^verbatim>\<open>net/url\<close>: the URL structure and \<^verbatim>\<open>Parse\<close>\<close>

record Userinfo =
  username :: string
  password :: string
  passwordSet :: bool

record url_URL =
  Scheme :: string
  Opaque :: string
  User :: "Userinfo option"
  Host :: string
  Path :: string
  RawPath :: string
  OmitHost :: bool
  ForceQuery :: bool
  RawQuery :: string
  Fragment :: string
  RawFragment :: string

definition empty_URL :: url_URL where
  "empty_URL = \<lparr>Scheme = '''', Opaque = '''', User = None, Host = '''', Path = '''',
     RawPath = '''', OmitHost = False, ForceQuery = False, RawQuery = '''',
     Fragment = '''', RawFragment = ''''\<rparr>"

definition stringContainsCTLByte :: "string \<Rightarrow> bool" where
  "stringContainsCTLByte s = list_ex (\<lambda>c. of_char c < (0x20::nat) \<or> c = CHR 0x7F) s"

text \<open>\<^verbatim>\<open>getScheme\<close>; \<open>i\<close> is the index of the byte looked at, \<open>raw\<close> the whole input.\<close>

fun getScheme_from :: "string \<Rightarrow> nat \<Rightarrow> string \<Rightarrow> url_error + (string \<times> string)" where
  "getScheme_from raw i [] = Inr ('''', raw)"
| "getScheme_from raw i (c # cs) =
     (if isLower c \<or> isUpper c then getScheme_from raw (Suc i) cs
      else if isDigit c \<or> c = CHR ''+'' \<or> c = CHR ''-'' \<or> c = CHR ''.'' then
        (if i = 0 then Inr ('''', raw) else getScheme_from raw (Suc i) cs)
      else if c = CHR '':'' then
        (if i = 0 then Inl MissingProtocolScheme else Inr (take i raw, drop (Suc i) raw))
      else Inr ('''', raw))"

definition getScheme :: "string \<Rightarrow> url_error + (string \<times> string)" where
  "getScheme rawURL = getScheme_from rawURL 0 rawURL"

definition validOptionalPort :: "string \<Rightarrow> bool" where
  "validOptionalPort port =
     (case port of [] \<Rightarrow> True | c # ds \<Rightarrow> c = CHR '':'' \<and> list_all isDigit ds)"

definition validUserinfo :: "string \<Rightarrow> bool" where
  "validUserinfo s =
     list_all (\<lambda>r. isUpper r \<or> isLower r \<or> isDigit r \<or>
                   r \<in> set (''-._:~!$&()*+,;=%@'' @ [CHR 0x27])) s"

definition parseHost :: "string \<Rightarrow> url_error + string" where
  "parseHost host =
     (if HasPrefix host ''['' then
        (case LastIndex host '']'' of
           None \<Rightarrow> Inl MissingBracket
         | Some i \<Rightarrow>
             if \<not> validOptionalPort (drop (Suc i) host) then Inl (InvalidPort (drop (Suc i) host))
             else (case Index (take i host) ''%25'' of
                     Some zone \<Rightarrow>
                       (case unescape (take zone host) encodeHost of
                          Inl e \<Rightarrow> Inl e
                        | Inr host1 \<Rightarrow>
                       (case unescape (drop zone (take i host)) encodeZone of
                          Inl e \<Rightarrow> Inl e
                        | Inr host2 \<Rightarrow>
                       (case unescape (drop i host) encodeHost of
                          Inl e \<Rightarrow> Inl e
                        | Inr host3 \<Rightarrow> Inr (host1 @ host2 @ host3))))
                   | None \<Rightarrow> unescape host encodeHost))
      else
        (case LastIndex host '':'' of
           Some i \<Rightarrow>
             if \<not> validOptionalPort (drop i host) then Inl (InvalidPort (drop i host))
             else unescape host encodeHost
         | None \<Rightarrow> unescape host encodeHost))"

definition parseUserinfo :: "string \<Rightarrow> url_error + Userinfo" where
  "parseUserinfo userinfo =
     (if \<not> validUserinfo userinfo then Inl InvalidUserinfo
      else if \<not> Contains userinfo '':'' then
        (case unescape userinfo encodeUserPassword of
           Inl e \<Rightarrow> Inl e
         | Inr u \<Rightarrow> Inr \<lparr>username = u, password = '''', passwordSet = False\<rparr>)
      else
        (case Cut userinfo '':'' of (name, pass, found) \<Rightarrow>
           (case unescape name encodeUserPassword of
              Inl e \<Rightarrow> Inl e
            | Inr u \<Rightarrow>
           (case unescape pass encodeUserPassword of
              Inl e \<Rightarrow> Inl e
            | Inr p \<Rightarrow> Inr \<lparr>username = u, password = p, passwordSet = True\<rparr>))))"

definition parseAuthority :: "string \<Rightarrow> url_error + (Userinfo option \<times> string)" where
  "parseAuthority authority =
     (case LastIndex authority ''@'' of
        None \<Rightarrow>
          (case parseHost authority of Inl e \<Rightarrow> Inl e | Inr host \<Rightarrow> Inr (None, host))
      | Some i \<Rightarrow>
          (case parseHost (drop (Suc i) authority) of
             Inl e \<Rightarrow> Inl e
           | Inr host \<Rightarrow>
               (case parseUserinfo (take i authority) of
                  Inl e \<Rightarrow> Inl e
                | Inr user \<Rightarrow> Inr (Some user, host))))"

text \<open>\<^verbatim>\<open>setPath\<close> and \<^verbatim>\<open>setFragment\<close>: the decoded text, and the raw text when the
  default encoding of the decoded text differs from it.\<close>

definition setPath :: "url_URL \<Rightarrow> string \<Rightarrow> url_error + url_URL" where
  "setPath u p =
     (case unescape p encodePath of
        Inl e \<Rightarrow> Inl e
      | Inr path \<Rightarrow>
          Inr (u\<lparr>Path := path, RawPath := (if p = escape path encodePath then '''' else p)\<rparr>))"

definition setFragment :: "url_URL \<Rightarrow> string \<Rightarrow> url_error + url_URL" where
  "setFragment u f =
     (case unescape f encodeFragment of
        Inl e \<Rightarrow> Inl e
      | Inr frag \<Rightarrow>
          Inr (u\<lparr>Fragment := frag,
                 RawFragment := (if f = escape frag encodeFragment then '''' else f)\<rparr>))"

text \<open>The unexported \<^verbatim>\<open>parse\<close>, on the text before any \<^verbatim>\<open>#\<close>.\<close>

definition parse_authority_path :: "url_URL \<Rightarrow> string \<Rightarrow> url_error + url_URL" where
  "parse_authority_path u rest =
     (if (Scheme u \<noteq> '''' \<or> \<not> HasPrefix rest ''///'') \<and> HasPrefix rest ''//'' then
        (let authority0 = drop 2 rest;
             authority = (case Index authority0 ''/'' of Some i \<Rightarrow> take i authority0 | None \<Rightarrow> authority0);
             rest' = (case Index authority0 ''/'' of Some i \<Rightarrow> drop i authority0 | None \<Rightarrow> '''')
         in case parseAuthority authority of
              Inl e \<Rightarrow> Inl e
            | Inr (user, host) \<Rightarrow> setPath (u\<lparr>User := user, Host := host\<rparr>) rest')
      else if Scheme u \<noteq> '''' \<and> HasPrefix rest ''/'' then setPath (u\<lparr>OmitHost := True\<rparr>) rest
      else setPath u rest)"

definition parse :: "string \<Rightarrow> url_error + url_URL" where
  "parse rawURL =
     (if stringContainsCTLByte rawURL then Inl ControlCharacter
      else if rawURL = ''*'' then Inr (empty_URL\<lparr>Path := ''*''\<rparr>)
      else case getScheme rawURL of
        Inl e \<Rightarrow> Inl e
      | Inr (scheme, rest0) \<Rightarrow>
          (let force = (HasSuffix rest0 ''?'' \<and> count_list rest0 CHR ''?'' = 1);
               rest = (if force then butlast rest0 else fst (Cut rest0 ''?''));
               u = empty_URL\<lparr>Scheme := ToLower scheme, ForceQuery := force,
                     RawQuery := (if force then '''' else fst (snd (Cut rest0 ''?'')))\<rparr>
           in if \<not> HasPrefix rest ''/'' \<and> Scheme u \<noteq> '''' then Inr (u\<lparr>Opaque := rest\<rparr>)
              else if \<not> HasPrefix rest ''/'' \<and> Contains (fst (Cut rest ''/'')) '':''
                then Inl FirstSegmentColon
              else parse_authority_path u rest))"

definition url_Parse :: "string \<Rightarrow> url_error + url_URL" where
  "url_Parse rawURL =
     (case Cut rawURL ''#'' of (u, frag, found) \<Rightarrow>
        (case parse u of
           Inl e \<Rightarrow> Inl e
         | Inr url \<Rightarrow> if frag = '''' then Inr url else setFragment url frag))"

subsection \<open>\<^verbatim>\<open>net/url\<close>: printing\<close>

definition EscapedPath :: "url_URL \<Rightarrow> string" where
  "EscapedPath u =
     (if RawPath u \<noteq> '''' \<and> validEncoded (RawPath u) encodePath \<and>
         unescape (RawPath u) encodePath = Inr (Path u) then RawPath u
      else if Path u = ''*'' then ''*''
      else escape (Path u) encodePath)"

definition EscapedFragment :: "url_URL \<Rightarrow> string" where
  "EscapedFragment u =
     (if RawFragment u \<noteq> '''' \<and> validEncoded (RawFragment u) encodeFragment \<and>
         unescape (RawFragment u) encodeFragment = Inr (Fragment u) then RawFragment u
      else escape (Fragment u) encodeFragment)"

definition Userinfo_String :: "Userinfo \<Rightarrow> string" where
  "Userinfo_String ui =
     escape (username ui) encodeUserPassword @
     (if passwordSet ui then '':'' @ escape (password ui) encodeUserPassword else '''')"

definition url_String :: "url_URL \<Rightarrow> string" where
  "url_String u =
     (let buf0 = (if Scheme u \<noteq> '''' then Scheme u @ '':'' else '''');
          buf1 =
            (if Opaque u \<noteq> '''' then buf0 @ Opaque u
             else
               (let buf2 =
                      (if (Scheme u \<noteq> '''' \<or> Host u \<noteq> '''' \<or> User u \<noteq> None) \<and>
                          \<not> (OmitHost u \<and> Host u = '''' \<and> User u = None)
                       then buf0 @
                            (if Host u \<noteq> '''' \<or> Path u \<noteq> '''' \<or> User u \<noteq> None then ''//'' else '''') @
                            (case User u of Some ui \<Rightarrow> Userinfo_String ui @ ''@'' | None \<Rightarrow> '''') @
                            (if Host u \<noteq> '''' then escape (Host u) encodeHost else '''')
                       else buf0);
                    path = EscapedPath u;
                    buf3 = (if path \<noteq> '''' \<and> hd path \<noteq> CHR ''/'' \<and> Host u \<noteq> ''''
                            then buf2 @ ''/'' else buf2);
                    buf4 = (if buf3 = '''' \<and> Contains (fst (Cut path ''/'')) '':''
                            then buf3 @ ''./'' else buf3)
                in buf4 @ path));
          buf5 = (if ForceQuery u \<or> RawQuery u \<noteq> '''' then buf1 @ ''?'' @ RawQuery u else buf1)
      in if Fragment u \<noteq> '''' then buf5 @ ''#'' @ EscapedFragment u else buf5)"

text \<open>\<^verbatim>\<open>Port\<close>, through \<^verbatim>\<open>splitHostPort\<close>: the digits after the last colon.\<close>

definition url_Port :: "url_URL \<Rightarrow> string" where
  "url_Port u =
     (case LastIndex (Host u) '':'' of
        Some colon \<Rightarrow>
          if validOptionalPort (drop colon (Host u)) then drop (Suc colon) (Host u) else ''''
      | None \<Rightarrow> '''')"

subsection \<open>\<^verbatim>\<open>net/url\<close>: query values\<close>

text \<open>
  \<^verbatim>\<open>url.Values\<close> is a \<^verbatim>\<open>map[string][]string\<close>: here the keys, each once, with
  their values in the order they were added. \<^verbatim>\<open>Encode\<close> sorts the keys and
  writes \<^verbatim>\<open>&\<close> before every pair but the first.
\<close>

type_synonym Values = "(string \<times> string list) list"

fun Values_add :: "Values \<Rightarrow> string \<Rightarrow> string \<Rightarrow> Values" where
  "Values_add [] k v = [(k, [v])]"
| "Values_add ((k', vs) # m) k v =
     (if k' = k then (k', vs @ [v]) # m else (k', vs) # Values_add m k v)"

definition Values_Del :: "Values \<Rightarrow> string \<Rightarrow> Values" where
  "Values_Del m k = filter (\<lambda>kv. fst kv \<noteq> k) m"

text \<open>One step of the loop of \<^verbatim>\<open>parseQuery\<close>, for the piece between two \<^verbatim>\<open>&\<close>.\<close>

definition parseQuery_piece :: "Values \<Rightarrow> string \<Rightarrow> Values" where
  "parseQuery_piece m piece =
     (if Contains piece '';'' then m
      else if piece = '''' then m
      else case Cut piece ''='' of (key, val, found) \<Rightarrow>
        (case QueryUnescape key of
           Inl e \<Rightarrow> m
         | Inr k \<Rightarrow> (case QueryUnescape val of Inl e \<Rightarrow> m | Inr v \<Rightarrow> Values_add m k v)))"

fun split_on :: "char \<Rightarrow> string \<Rightarrow> string list" where
  "split_on sep [] = [[]]"
| "split_on sep (c # s) =
     (if c = sep then [] # split_on sep s
      else (case split_on sep s of p # ps \<Rightarrow> (c # p) # ps | [] \<Rightarrow> [[c]]))"

definition url_Query :: "url_URL \<Rightarrow> Values" where
  "url_Query u = foldl parseQuery_piece [] (split_on CHR ''&'' (RawQuery u))"

definition Values_Encode :: "Values \<Rightarrow> string" where
  "Values_Encode m =
     drop 1 (concat (map (\<lambda>k. concat (map (\<lambda>v. ''&'' @ QueryEscape k @ ''='' @ QueryEscape v)
                                         (the (map_of m k))))
                         (sort (map fst m))))"

subsection \<open>\<^verbatim>\<open>net/url\<close>: \<^verbatim>\<open>ResolveReference\<close>\<close>

text \<open>The loop of \<^verbatim>\<open>resolvePath\<close> over the elements between slashes; the state is
  the text written so far and the flag \<^verbatim>\<open>first\<close>.\<close>

definition resolve_elem :: "string \<times> bool \<Rightarrow> string \<Rightarrow> string \<times> bool" where
  "resolve_elem st elem =
     (case st of (dst, first) \<Rightarrow>
        if elem = ''.'' then (dst, False)
        else if elem = ''..'' then
          (case LastIndex (drop 1 dst) ''/'' of
             None \<Rightarrow> (''/'', True)
           | Some index \<Rightarrow> (''/'' @ take index (drop 1 dst), first))
        else ((if first then dst else dst @ ''/'') @ elem, False))"

definition resolvePath :: "string \<Rightarrow> string \<Rightarrow> string" where
  "resolvePath base ref =
     (let full = (if ref = '''' then base
                  else if hd ref \<noteq> CHR ''/'' then
                    (case LastIndex base ''/'' of
                       Some i \<Rightarrow> take (Suc i) base @ ref
                     | None \<Rightarrow> ref)
                  else ref)
      in if full = '''' then ''''
         else (let elems = split_on CHR ''/'' full;
                   dst = fst (foldl resolve_elem (''/'', True) elems);
                   r = (if last elems = ''.'' \<or> last elems = ''..'' then dst @ ''/'' else dst)
               in if length r > 1 \<and> r ! 1 = CHR ''/'' then drop 1 r else r))"

text \<open>\<^verbatim>\<open>setPath\<close> cannot fail on the output of \<^verbatim>\<open>resolvePath\<close> applied to escaped
  paths; \<^verbatim>\<open>ResolveReference\<close> ignores its error.\<close>

definition setPath_ignore :: "url_URL \<Rightarrow> string \<Rightarrow> url_URL" where
  "setPath_ignore u p = (case setPath u p of Inr u' \<Rightarrow> u' | Inl e \<Rightarrow> u)"

definition ResolveReference :: "url_URL \<Rightarrow> url_URL \<Rightarrow> url_URL" where
  "ResolveReference u ref =
     (let url = (if Scheme ref = '''' then ref\<lparr>Scheme := Scheme u\<rparr> else ref)
      in if Scheme ref \<noteq> '''' \<or> Host ref \<noteq> '''' \<or> User ref \<noteq> None
           then setPath_ignore url (resolvePath (EscapedPath ref) '''')
         else if Opaque ref \<noteq> '''' then url\<lparr>User := None, Host := '''', Path := ''''\<rparr>
         else
           (let url1 =
                  (if Path ref = '''' \<and> \<not> ForceQuery ref \<and> RawQuery ref = '''' then
                     (if Fragment ref = ''''
                      then url\<lparr>RawQuery := RawQuery u, Fragment := Fragment u,
                               RawFragment := RawFragment u\<rparr>
                      else url\<lparr>RawQuery := RawQuery u\<rparr>)
                   else url)
            in if Path ref = '''' \<and> Opaque u \<noteq> ''''
                 then url1\<lparr>Opaque := Opaque u, User := None, Host := '''', Path := ''''\<rparr>
               else setPath_ignore (url1\<lparr>Host := Host u, User := User u\<rparr>)
                      (resolvePath (EscapedPath u) (EscapedPath ref))))"

section \<open>URL utilities of the crawler\<close>

definition removeParams :: "string list" where
  "removeParams = [''utm_source'', ''utm_medium'', ''utm_campaign'', ''utm_term'', ''utm_content'']"

text \<open>\<^verbatim>\<open>NormalizeURL\<close>, statement by statement.\<close>

definition add_scheme :: "string \<Rightarrow> string" where
  "add_scheme rawURL =
     (if \<not> HasPrefix rawURL ''http://'' \<and> \<not> HasPrefix rawURL ''https://''
      then ''https://'' @ rawURL else rawURL)"

definition add_trailing_slash :: "url_URL \<Rightarrow> url_URL" where
  "add_trailing_slash parsedURL =
     (if \<not> Contains (Path parsedURL) ''.'' \<and> \<not> HasSuffix (Path parsedURL) ''/''
      then parsedURL\<lparr>Path := Path parsedURL @ ''/''\<rparr> else parsedURL)"

definition remove_tracking :: "url_URL \<Rightarrow> url_URL" where
  "remove_tracking parsedURL =
     parsedURL\<lparr>RawQuery := Values_Encode (foldl Values_Del (url_Query parsedURL) removeParams)\<rparr>"

definition remove_default_port :: "url_URL \<Rightarrow> url_URL" where
  "remove_default_port parsedURL =
     (if (Scheme parsedURL = ''http'' \<and> url_Port parsedURL = ''80'') \<or>
         (Scheme parsedURL = ''https'' \<and> url_Port parsedURL = ''443'')
      then (case IndexByte (Host parsedURL) CHR '':'' of
              Some colonIndex \<Rightarrow> parsedURL\<lparr>Host := take colonIndex (Host parsedURL)\<rparr>
            | None \<Rightarrow> parsedURL)
      else parsedURL)"

definition NormalizeURL :: "string \<Rightarrow> url_error + string" where
  "NormalizeURL rawURL =
     (case url_Parse (add_scheme rawURL) of
        Inl err \<Rightarrow> Inl err
      | Inr parsedURL \<Rightarrow>
          Inr (url_String (remove_default_port
                 ((remove_tracking (add_trailing_slash parsedURL))\<lparr>Fragment := ''''\<rparr>))))"

definition excludedExtensions :: "string list" where
  "excludedExtensions =
     [''.pdf'', ''.jpg'', ''.jpeg'', ''.png'', ''.gif'', ''.svg'', ''.css'', ''.js'',
      ''.zip'', ''.tar'', ''.gz'', ''.rar'', ''.exe'', ''.mp3'', ''.mp4'', ''.avi'',
      ''.mov'', ''.mkv'', ''.doc'', ''.docx'', ''.xls'', ''.xlsx'', ''.ppt'', ''.pptx'']"

definition IsURLValid :: "string \<Rightarrow> bool" where
  "IsURLValid rawURL =
     (if rawURL = '''' then False
      else if \<not> HasPrefix rawURL ''http://'' \<and> \<not> HasPrefix rawURL ''https://'' then False
      else case url_Parse rawURL of
        Inl err \<Rightarrow> False
      | Inr parsedURL \<Rightarrow>
          \<not> list_ex (\<lambda>ext. HasSuffix (ToLower (Path parsedURL)) ext) excludedExtensions)"

definition ResolveURL :: "string \<Rightarrow> string \<Rightarrow> url_error + string" where
  "ResolveURL baseURL relativeURL =
     (case url_Parse baseURL of
        Inl err \<Rightarrow> Inl err
      | Inr base \<Rightarrow>
          if HasPrefix relativeURL ''http://'' \<or> HasPrefix relativeURL ''https://''
          then Inr relativeURL
          else (case url_Parse relativeURL of
                  Inl err \<Rightarrow> Inl err
                | Inr rel \<Rightarrow> Inr (url_String (ResolveReference base rel))))"

section \<open>Fetching one page: \<^verbatim>\<open>crawlURL\<close>\<close>

text \<open>
  The network and the HTML parser are outside the program. A request either fails
  (\<^verbatim>\<open>http.NewRequestWithContext\<close> or \<^verbatim>\<open>client.Do\<close> returns an error) or yields a
  response; the body either fails to parse or is a document, of which the crawler
  reads the text of \<^verbatim>\<open>title\<close> and the \<^verbatim>\<open>href\<close> of every \<^verbatim>\<open>a[href]\<close>, in document
  order. The web may answer differently at different times.
\<close>

record html_doc =
  title_text :: string
  hrefs :: "string list"

record http_Response =
  resp_StatusCode :: int
  resp_ContentLength :: int
  resp_ContentType :: string
  resp_Body :: "html_doc option"

datatype net_error = NetError string

type_synonym web = "Time \<Rightarrow> string \<Rightarrow> net_error + http_Response"

datatype crawl_error =
    InvalidURL string
  | RequestFailed net_error
  | UnexpectedStatus int
  | NonHTML string
  | ParseFailed

text \<open>What the crawler writes to its logger, one constructor per call site.\<close>

datatype logmsg =
    LogPendingIncremented int
  | LogPendingDecremented int
  | LogAllJobsCompleted
  | LogAddingStartURL
  | LogAllWorkersCompleted
  | LogCrawlingCompleted
  | LogCrawlingCancelled
  | LogWorkerStarted int
  | LogWorkerCancelled int
  | LogWorkerChannelClosed int
  | LogCrawling int string int
  | LogErrorCrawling string crawl_error
  | LogAddedJobs int int string
  | LogReachedMaxDepth int int string
  | LogCancelledWhileAdding int
  | LogErrorResolving string string url_error
  | LogErrorNormalizing string url_error

text \<open>The body of the callback of \<^verbatim>\<open>doc.Find("a[href]").Each\<close> for one \<^verbatim>\<open>href\<close>:
  the link it appends, if any, and what it logs.\<close>

definition extract_link :: "string \<Rightarrow> string \<Rightarrow> string list \<times> logmsg list" where
  "extract_link url href =
     (if href = '''' \<or> HasPrefix href ''#'' then ([], [])
      else case ResolveURL url href of
        Inl err \<Rightarrow> ([], [LogErrorResolving href url err])
      | Inr absoluteURL \<Rightarrow>
          (case NormalizeURL absoluteURL of
             Inl err \<Rightarrow> ([], [LogErrorNormalizing absoluteURL err])
           | Inr normalizedURL \<Rightarrow>
               if \<not> IsURLValid normalizedURL then ([], []) else ([normalizedURL], [])))"

definition extract_links :: "string \<Rightarrow> string list \<Rightarrow> string list \<times> logmsg list" where
  "extract_links url hs =
     (concat (map (\<lambda>h. fst (extract_link url h)) hs),
      concat (map (\<lambda>h. snd (extract_link url h)) hs))"

text \<open>\<^verbatim>\<open>crawlURL\<close> returns the result, the error if any, and what it logged;
  \<open>now\<close> is \<^verbatim>\<open>time.Now()\<close>.\<close>

definition crawlURL :: "web \<Rightarrow> Time \<Rightarrow> string \<Rightarrow> int \<Rightarrow> Result \<times> crawl_error option \<times> logmsg list" where
  "crawlURL net now url depth =
     (let result = \<lparr>URL = url, Title = '''', StatusCode = 0, ContentLength = 0, Links = [],
                    Depth = depth, Timestamp = now\<rparr>
      in if \<not> IsURLValid url then (result, Some (InvalidURL url), [])
         else case net now url of
           Inl err \<Rightarrow> (result, Some (RequestFailed err), [])
         | Inr resp \<Rightarrow>
             (let result1 = result\<lparr>StatusCode := resp_StatusCode resp,
                                   ContentLength := resp_ContentLength resp\<rparr>
              in if resp_StatusCode resp \<noteq> 200
                   then (result1, Some (UnexpectedStatus (resp_StatusCode resp)), [])
                 else if \<not> Contains (ToLower (resp_ContentType resp)) ''text/html''
                   then (result1, Some (NonHTML (resp_ContentType resp)), [])
                 else case resp_Body resp of
                   None \<Rightarrow> (result1, Some ParseFailed, [])
                 | Some doc \<Rightarrow>
                     (result1\<lparr>Title := TrimSpace (title_text doc),
                              Links := fst (extract_links url (hrefs doc))\<rparr>,
                      None,
                      snd (extract_links url (hrefs doc)))))"

section \<open>The crawl engine\<close>

subsection \<open>Configuration and state\<close>

text \<open>\<^verbatim>\<open>Timeout\<close> and \<^verbatim>\<open>RateLimit\<close> are durations in nanoseconds. The logger is the
  log kept in the state; the storage sink is modelled on its own above.\<close>

record Config =
  StartURL :: string
  MaxDepth :: int
  NumWorkers :: int
  Timeout :: int
  RateLimit :: int

record job =
  url :: string
  depth :: int

text \<open>
  The program points of a worker at which it touches shared state or may block.
  \<open>W_Recv\<close> is the \<^verbatim>\<open>select\<close> at the head of the loop, \<open>W_Rate\<close> the read of the
  rate limiter, \<open>W_Crawl\<close> the call of \<^verbatim>\<open>crawlURL\<close>, \<open>W_ErrDec\<close> the decrement on the
  error path (line 413), \<open>W_Append\<close> the append to the results, \<open>W_Links\<close> the head
  of the loop over the links with \<^verbatim>\<open>hasURLBeenSeen\<close>, \<open>W_Mark\<close>, \<open>W_Inc\<close> and
  \<open>W_Send\<close> the three statements for a link that is followed, \<open>W_Dec\<close> the final
  decrement (line 452). The worker holds its current job, the links not yet looked
  at and \<^verbatim>\<open>newJobsAdded\<close>.
\<close>

datatype exit_reason = ExitCancelled | ExitChannelClosed | ExitCancelledWhileAdding

datatype wstate =
    W_Start
  | W_Recv
  | W_Rate job
  | W_Crawl job
  | W_ErrDec job
  | W_Append job Result
  | W_Links job "string list" int
  | W_Mark job string "string list" int
  | W_Inc job string "string list" int
  | W_Send job string "string list" int
  | W_Dec job
  | W_Exit exit_reason

text \<open>The program points of \<^verbatim>\<open>Start\<close>.\<close>

datatype mstate =
    M_Start
  | M_Failed url_error
  | M_Inc
  | M_Send
  | M_Mark
  | M_Wait
  | M_Returned

text \<open>
  The fields of \<^verbatim>\<open>Crawler\<close> that the engine uses, and the state of its goroutines.
  \<open>jobs\<close> is the content of the buffered channel, \<open>jobs_closed\<close> whether it has been
  closed, \<open>ctx_done\<close> whether \<^verbatim>\<open>cancel\<close> has been called. \<open>closes\<close> counts the
  executions of \<^verbatim>\<open>close(c.jobs)\<close>; \<open>panicked\<close> is set by a second close and by a
  send on the closed channel. \<open>clock\<close> counts the steps taken and is what
  \<^verbatim>\<open>time.Now()\<close> reads.
\<close>

record Crawler =
  config :: Config
  seen :: "string \<Rightarrow> bool"
  results :: "Result list"
  jobs :: "job list"
  jobs_closed :: bool
  ctx_done :: bool
  pendingJobs :: int
  startURL :: string
  baseDomain :: string
  main_pc :: mstate
  workers :: "wstate list"
  logs :: "logmsg list"
  closes :: nat
  panicked :: bool
  clock :: Time

text \<open>The capacity of \<^verbatim>\<open>make(chan job, 1000)\<close>.\<close>

definition jobsCap :: nat where
  "jobsCap = 1000"

definition defaults :: "Config \<Rightarrow> Config" where
  "defaults cfg =
     cfg\<lparr>NumWorkers := (if NumWorkers cfg \<le> 0 then 5 else NumWorkers cfg),
         Timeout := (if Timeout cfg \<le> 0 then 10 * 1000000000 else Timeout cfg),
         MaxDepth := (if MaxDepth cfg \<le> 0 then 2 else MaxDepth cfg),
         RateLimit := (if RateLimit cfg \<le> 0 then 100 * 1000000 else RateLimit cfg)\<rparr>"

definition New :: "Config \<Rightarrow> Crawler" where
  "New cfg =
     \<lparr>config = defaults cfg, seen = (\<lambda>u. False), results = [], jobs = [],
      jobs_closed = False, ctx_done = False, pendingJobs = 0, startURL = '''',
      baseDomain = '''', main_pc = M_Start, workers = [], logs = [], closes = 0,
      panicked = False, clock = 0\<rparr>"

subsection \<open>The shared operations\<close>

definition logf :: "logmsg list \<Rightarrow> Crawler \<Rightarrow> Crawler" where
  "logf ms c = c\<lparr>logs := logs c @ ms\<rparr>"

definition incrementPendingJobs :: "Crawler \<Rightarrow> Crawler" where
  "incrementPendingJobs c =
     logf [LogPendingIncremented (pendingJobs c + 1)] (c\<lparr>pendingJobs := pendingJobs c + 1\<rparr>)"

text \<open>\<^verbatim>\<open>close(c.jobs)\<close>: closing a closed channel panics.\<close>

definition close_jobs :: "Crawler \<Rightarrow> Crawler" where
  "close_jobs c =
     c\<lparr>closes := closes c + 1, panicked := panicked c \<or> jobs_closed c, jobs_closed := True\<rparr>"

definition decrementPendingJobs :: "Crawler \<Rightarrow> Crawler" where
  "decrementPendingJobs c =
     (let c1 = logf [LogPendingDecremented (pendingJobs c - 1)]
                 (c\<lparr>pendingJobs := pendingJobs c - 1\<rparr>)
      in if pendingJobs c1 \<le> 0 then
           (let c2 = logf [LogAllJobsCompleted] c1
            in if pendingJobs c2 = 0 then close_jobs c2 else c2)
         else c1)"

definition hasURLBeenSeen :: "Crawler \<Rightarrow> string \<Rightarrow> bool" where
  "hasURLBeenSeen c u = seen c u"

definition markURLSeen :: "string \<Rightarrow> Crawler \<Rightarrow> Crawler" where
  "markURLSeen u c = c\<lparr>seen := (seen c)(u := True)\<rparr>"

text \<open>A send on \<^verbatim>\<open>c.jobs\<close>: it panics on a closed channel, blocks (\<open>None\<close>) on a full
  one, and appends otherwise.\<close>

definition send_job :: "job \<Rightarrow> Crawler \<Rightarrow> Crawler option" where
  "send_job j c =
     (if jobs_closed c then Some (c\<lparr>panicked := True\<rparr>)
      else if length (jobs c) < jobsCap then Some (c\<lparr>jobs := jobs c @ [j]\<rparr>)
      else None)"

subsection \<open>One step of \<^verbatim>\<open>Start\<close>\<close>

definition all_exited :: "wstate list \<Rightarrow> bool" where
  "all_exited ws = list_all (\<lambda>w. case w of W_Exit r \<Rightarrow> True | _ \<Rightarrow> False) ws"

fun main_step :: "mstate \<Rightarrow> Crawler \<Rightarrow> Crawler option" where
  "main_step M_Start c =
     (case NormalizeURL (StartURL (config c)) of
        Inl err \<Rightarrow> Some (c\<lparr>main_pc := M_Failed err\<rparr>)
      | Inr start \<Rightarrow>
          (case url_Parse start of
             Inl err \<Rightarrow> Some (c\<lparr>main_pc := M_Failed err\<rparr>)
           | Inr baseURL \<Rightarrow>
               Some (c\<lparr>startURL := start, baseDomain := Host baseURL,
                       workers := replicate (nat (NumWorkers (config c))) W_Start,
                       main_pc := M_Inc\<rparr>)))"
| "main_step (M_Failed err) c = None"
| "main_step M_Inc c =
     Some ((incrementPendingJobs (logf [LogAddingStartURL] c))\<lparr>main_pc := M_Send\<rparr>)"
| "main_step M_Send c =
     map_option (\<lambda>c'. c'\<lparr>main_pc := M_Mark\<rparr>) (send_job \<lparr>url = startURL c, depth = 0\<rparr> c)"
| "main_step M_Mark c = Some ((markURLSeen (startURL c) c)\<lparr>main_pc := M_Wait\<rparr>)"
| "main_step M_Wait c =
     (if all_exited (workers c)
      then Some ((logf [LogAllWorkersCompleted, LogCrawlingCompleted] c)\<lparr>main_pc := M_Returned\<rparr>)
      else None)"
| "main_step M_Returned c = None"

text \<open>The case \<^verbatim>\<open><-c.ctx.Done()\<close> of the \<^verbatim>\<open>select\<close> in \<^verbatim>\<open>Start\<close>.\<close>

fun main_cancelled :: "mstate \<Rightarrow> Crawler \<Rightarrow> Crawler option" where
  "main_cancelled M_Wait c = Some ((logf [LogCrawlingCancelled] c)\<lparr>main_pc := M_Returned\<rparr>)"
| "main_cancelled _ c = None"

subsection \<open>One step of a worker\<close>

text \<open>\<open>i\<close> is the index of the worker, \<open>i + 1\<close> its \<^verbatim>\<open>id\<close>. The result is the next
  program point and the new shared state, \<open>None\<close> when the worker is blocked or gone.\<close>

fun worker_step :: "web \<Rightarrow> nat \<Rightarrow> wstate \<Rightarrow> Crawler \<Rightarrow> (wstate \<times> Crawler) option" where
  "worker_step net i W_Start c = Some (W_Recv, logf [LogWorkerStarted (int i + 1)] c)"
| "worker_step net i W_Recv c =
     (case jobs c of
        currentJob # rest \<Rightarrow> Some (W_Rate currentJob, c\<lparr>jobs := rest\<rparr>)
      | [] \<Rightarrow>
          if jobs_closed c
          then Some (W_Exit ExitChannelClosed, logf [LogWorkerChannelClosed (int i + 1)] c)
          else None)"
| "worker_step net i (W_Rate j) c = Some (W_Crawl j, c)"
| "worker_step net i (W_Crawl j) c =
     (case crawlURL net (clock c) (url j) (depth j) of (result, err, lg) \<Rightarrow>
        (case err of
           Some e \<Rightarrow>
             Some (W_ErrDec j,
                   logf ([LogCrawling (int i + 1) (url j) (depth j)] @ lg @
                         [LogErrorCrawling (url j) e]) c)
         | None \<Rightarrow>
             Some (W_Append j result,
                   logf ([LogCrawling (int i + 1) (url j) (depth j)] @ lg) c)))"
| "worker_step net i (W_ErrDec j) c = Some (W_Recv, decrementPendingJobs c)"
| "worker_step net i (W_Append j result) c =
     (if depth j < MaxDepth (config c)
      then Some (W_Links j (Links result) 0, c\<lparr>results := results c @ [result]\<rparr>)
      else Some (W_Dec j,
                 logf [LogReachedMaxDepth (int i + 1) (MaxDepth (config c)) (url j)]
                   (c\<lparr>results := results c @ [result]\<rparr>)))"
| "worker_step net i (W_Links j [] n) c =
     Some (W_Dec j, logf [LogAddedJobs (int i + 1) n (url j)] c)"
| "worker_step net i (W_Links j (link # rest) n) c =
     (if \<not> hasURLBeenSeen c link then
        (case url_Parse link of
           Inr linkURL \<Rightarrow>
             if Host linkURL = baseDomain c then Some (W_Mark j link rest n, c)
             else Some (W_Links j rest n, c)
         | Inl err \<Rightarrow> Some (W_Links j rest n, c))
      else Some (W_Links j rest n, c))"
| "worker_step net i (W_Mark j link rest n) c = Some (W_Inc j link rest n, markURLSeen link c)"
| "worker_step net i (W_Inc j link rest n) c =
     Some (W_Send j link rest (n + 1), incrementPendingJobs c)"
| "worker_step net i (W_Send j link rest n) c =
     map_option (\<lambda>c'. (W_Links j rest n, c')) (send_job \<lparr>url = link, depth = depth j + 1\<rparr> c)"
| "worker_step net i (W_Dec j) c = Some (W_Recv, decrementPendingJobs c)"
| "worker_step net i (W_Exit r) c = None"

text \<open>The cases \<^verbatim>\<open><-c.ctx.Done()\<close> of the two \<^verbatim>\<open>select\<close>s of the worker.\<close>

fun worker_cancelled :: "nat \<Rightarrow> wstate \<Rightarrow> Crawler \<Rightarrow> (wstate \<times> Crawler) option" where
  "worker_cancelled i W_Recv c =
     Some (W_Exit ExitCancelled, logf [LogWorkerCancelled (int i + 1)] c)"
| "worker_cancelled i (W_Send j link rest n) c =
     Some (W_Exit ExitCancelledWhileAdding,
           logf [LogCancelledWhileAdding (int i + 1)] (decrementPendingJobs c))"
| "worker_cancelled i _ c = None"

subsection \<open>Interleaving\<close>

text \<open>
  A run is a list of events, chosen by the scheduler and the environment: a thread
  takes its next step, a thread takes the cancellation case of the \<^verbatim>\<open>select\<close> it
  stands at, or \<^verbatim>\<open>Stop\<close> calls \<^verbatim>\<open>cancel\<close>. An event that is not enabled yields
  \<open>None\<close>. After a panic nothing runs.
\<close>

datatype thread = MainT | WorkerT nat

datatype event = Step thread | Cancelled thread | Stop

definition put_worker :: "nat \<Rightarrow> (wstate \<times> Crawler) option \<Rightarrow> Crawler option" where
  "put_worker i r = map_option (\<lambda>(w, c'). c'\<lparr>workers := (workers c')[i := w]\<rparr>) r"

fun fire :: "web \<Rightarrow> event \<Rightarrow> Crawler \<Rightarrow> Crawler option" where
  "fire net Stop c = Some (c\<lparr>ctx_done := True\<rparr>)"
| "fire net (Step MainT) c = main_step (main_pc c) c"
| "fire net (Cancelled MainT) c = (if ctx_done c then main_cancelled (main_pc c) c else None)"
| "fire net (Step (WorkerT i)) c =
     (if i < length (workers c) then put_worker i (worker_step net i (workers c ! i) c)
      else None)"
| "fire net (Cancelled (WorkerT i)) c =
     (if i < length (workers c) \<and> ctx_done c
      then put_worker i (worker_cancelled i (workers c ! i) c)
      else None)"

definition step :: "web \<Rightarrow> event \<Rightarrow> Crawler \<Rightarrow> Crawler option" where
  "step net ev c =
     (if panicked c then None
      else map_option (\<lambda>c'. c'\<lparr>clock := clock c + 1\<rparr>) (fire net ev c))"

fun run :: "web \<Rightarrow> event list \<Rightarrow> Crawler \<Rightarrow> Crawler option" where
  "run net [] c = Some c"
| "run net (ev # evs) c = (case step net ev c of None \<Rightarrow> None | Some c' \<Rightarrow> run net evs c')"

section \<open>Invariants of the engine\<close>

text \<open>A URL is in the domain \<open>b\<close> when it parses and its host is exactly \<open>b\<close>.\<close>

definition in_domain :: "string \<Rightarrow> string \<Rightarrow> bool" where
  "in_domain b u = (case url_Parse u of Inr p \<Rightarrow> Host p = b | Inl e \<Rightarrow> False)"

definition job_ok :: "int \<Rightarrow> string \<Rightarrow> job \<Rightarrow> bool" where
  "job_ok D b j = (depth j \<le> D \<and> in_domain b (url j))"

definition res_ok :: "int \<Rightarrow> string \<Rightarrow> Result \<Rightarrow> bool" where
  "res_ok D b r = (Depth r \<le> D \<and> in_domain b (URL r))"

text \<open>The job a worker is working on, if any.\<close>

fun current_job :: "wstate \<Rightarrow> job option" where
  "current_job (W_Rate j) = Some j"
| "current_job (W_Crawl j) = Some j"
| "current_job (W_ErrDec j) = Some j"
| "current_job (W_Append j r) = Some j"
| "current_job (W_Links j ls n) = Some j"
| "current_job (W_Mark j l ls n) = Some j"
| "current_job (W_Inc j l ls n) = Some j"
| "current_job (W_Send j l ls n) = Some j"
| "current_job (W_Dec j) = Some j"
| "current_job _ = None"

text \<open>What holds of a worker at each program point: its job is within depth and
  domain; inside the loop over the links the job is below the maximum depth; a link
  about to be marked, counted and sent is in the domain.\<close>

fun w_ok :: "int \<Rightarrow> string \<Rightarrow> wstate \<Rightarrow> bool" where
  "w_ok D b (W_Rate j) = job_ok D b j"
| "w_ok D b (W_Crawl j) = job_ok D b j"
| "w_ok D b (W_ErrDec j) = job_ok D b j"
| "w_ok D b (W_Append j r) = (job_ok D b j \<and> URL r = url j \<and> Depth r = depth j)"
| "w_ok D b (W_Links j ls n) = (job_ok D b j \<and> depth j < D)"
| "w_ok D b (W_Mark j l ls n) = (job_ok D b j \<and> depth j < D \<and> in_domain b l)"
| "w_ok D b (W_Inc j l ls n) = (job_ok D b j \<and> depth j < D \<and> in_domain b l)"
| "w_ok D b (W_Send j l ls n) = (job_ok D b j \<and> depth j < D \<and> in_domain b l)"
| "w_ok D b (W_Dec j) = job_ok D b j"
| "w_ok D b _ = True"

definition started :: "mstate \<Rightarrow> bool" where
  "started pc = (case pc of M_Start \<Rightarrow> False | M_Failed e \<Rightarrow> False | _ \<Rightarrow> True)"

definition safe :: "Config \<Rightarrow> Crawler \<Rightarrow> bool" where
  "safe cfg c =
     (config c = defaults cfg \<and>
      list_all (job_ok (MaxDepth (defaults cfg)) (baseDomain c)) (jobs c) \<and>
      list_all (w_ok (MaxDepth (defaults cfg)) (baseDomain c)) (workers c) \<and>
      list_all (res_ok (MaxDepth (defaults cfg)) (baseDomain c)) (results c) \<and>
      (if started (main_pc c)
       then NormalizeURL (StartURL cfg) = Inr (startURL c) \<and>
            in_domain (baseDomain c) (startURL c) \<and>
            length (workers c) = nat (NumWorkers (defaults cfg))
       else jobs c = [] \<and> workers c = [] \<and> results c = []))"

text \<open>The units of the pending counter that a worker accounts for: one for its
  current job, one more for a child counted but not yet sent. A worker that returned
  while adding a job gave the child's unit back and kept its own.\<close>

fun held :: "wstate \<Rightarrow> nat" where
  "held W_Start = 0"
| "held W_Recv = 0"
| "held (W_Send j l ls n) = 2"
| "held (W_Exit ExitCancelledWhileAdding) = 1"
| "held (W_Exit r) = 0"
| "held _ = 1"

definition seeded :: "mstate \<Rightarrow> bool" where
  "seeded pc = (pc = M_Mark \<or> pc = M_Wait \<or> pc = M_Returned)"

definition counting :: "Crawler \<Rightarrow> bool" where
  "counting c =
     (pendingJobs c = int (length (jobs c)) + int (sum_list (map held (workers c))) +
                      (if main_pc c = M_Send then 1 else 0) \<and>
      \<not> panicked c \<and>
      closes c = (if jobs_closed c then 1 else 0) \<and>
      (jobs_closed c \<longrightarrow> pendingJobs c = 0 \<and> seeded (main_pc c)) \<and>
      (\<not> jobs_closed c \<and> seeded (main_pc c) \<longrightarrow> 1 \<le> pendingJobs c) \<and>
      (\<not> seeded (main_pc c) \<and> main_pc c \<noteq> M_Send \<longrightarrow> pendingJobs c = 0))"

text \<open>How workers leave: through the closed channel only after the close, through
  cancellation only after \<^verbatim>\<open>cancel\<close>; and \<^verbatim>\<open>Start\<close> returns without cancellation only
  when every worker has left.\<close>

fun exit_ok :: "bool \<Rightarrow> bool \<Rightarrow> wstate \<Rightarrow> bool" where
  "exit_ok closed cancelled (W_Exit ExitChannelClosed) = closed"
| "exit_ok closed cancelled (W_Exit r) = cancelled"
| "exit_ok closed cancelled _ = True"

definition leaving :: "Crawler \<Rightarrow> bool" where
  "leaving c =
     (list_all (exit_ok (jobs_closed c) (ctx_done c)) (workers c) \<and>
      (main_pc c = M_Returned \<and> \<not> ctx_done c \<longrightarrow> all_exited (workers c)) \<and>
      (started (main_pc c) \<longrightarrow> workers c \<noteq> []) \<and>
      0 < NumWorkers (config c))"

text \<open>The number of steps of a run that take the pending counter from a nonzero value
  to zero.\<close>

fun zero_crossings :: "web \<Rightarrow> event list \<Rightarrow> Crawler \<Rightarrow> nat" where
  "zero_crossings net [] c = 0"
| "zero_crossings net (ev # evs) c =
     (case step net ev c of
        None \<Rightarrow> 0
      | Some c' \<Rightarrow>
          (if pendingJobs c \<noteq> 0 \<and> pendingJobs c' = 0 then 1 else 0) + zero_crossings net evs c')"

section \<open>Example inputs\<close>

text \<open>A file system on which every operation succeeds.\<close>

definition all_ok :: csv_io where
  "all_ok = \<lparr>createOk = True, writeOk = (\<lambda>k. True)\<rparr>"

definition result_3_links :: Result where
  "result_3_links = \<lparr>URL = ''https://example.com/'', Title = ''Home'', StatusCode = 200,
     ContentLength = 512,
     Links = [''https://example.com/a/'', ''https://example.com/b/'', ''https://example.com/c/''],
     Depth = 0, Timestamp = 1\<rparr>"

definition result_0_links :: Result where
  "result_0_links = \<lparr>URL = ''https://example.com/a/'', Title = ''A'', StatusCode = 200,
     ContentLength = 64, Links = [], Depth = 1, Timestamp = 2\<rparr>"

text \<open>
  A small site. The home page links to itself, to two pages of the site, to a page
  of another host, to a fragment, and to a page that does not exist; the two pages
  both link to a third.
\<close>

definition html_page :: "string \<Rightarrow> string list \<Rightarrow> net_error + http_Response" where
  "html_page t hs =
     Inr \<lparr>resp_StatusCode = 200, resp_ContentLength = 100,
          resp_ContentType = ''text/html; charset=utf-8'',
          resp_Body = Some \<lparr>title_text = t, hrefs = hs\<rparr>\<rparr>"

definition not_found :: "net_error + http_Response" where
  "not_found =
     Inr \<lparr>resp_StatusCode = 404, resp_ContentLength = 0, resp_ContentType = ''text/plain'',
          resp_Body = None\<rparr>"

definition example_web :: web where
  "example_web t u =
     (if u = ''https://example.com/''
        then html_page '' Home '' [''/'', ''/a'', ''https://example.com/b'',
                                  ''https://other.com/x'', ''#top'', ''/missing'']
      else if u = ''https://example.com/a/'' then html_page ''A'' [''/c'']
      else if u = ''https://example.com/b/'' then html_page ''B'' [''/c'']
      else if u = ''https://example.com/c/'' then html_page ''C'' [''/'']
      else not_found)"

definition example_cfg :: Config where
  "example_cfg = \<lparr>StartURL = ''example.com'', MaxDepth = 0, NumWorkers = 2, Timeout = 0,
     RateLimit = 0\<rparr>"

text \<open>Schedules are built from a step of \<^verbatim>\<open>Start\<close> and steps of the first two workers.\<close>

definition m_step :: event where "m_step = Step MainT"
definition w0_step :: event where "w0_step = Step (WorkerT 0)"
definition w1_step :: event where "w1_step = Step (WorkerT 1)"

text \<open>The crawl of the small site by the first worker alone, to the end.\<close>

definition full_schedule :: "event list" where
  "full_schedule = replicate 4 m_step @ replicate 48 w0_step @ replicate 2 w1_step @ [m_step]"

text \<open>The first worker has taken the home page and sent its first new link.\<close>

definition early_schedule :: "event list" where
  "early_schedule = replicate 4 m_step @ replicate 10 w0_step"

text \<open>The first worker is about to fetch the page that does not exist.\<close>

definition error_schedule :: "event list" where
  "error_schedule = replicate 4 m_step @ replicate 40 w0_step"

text \<open>The first worker crawls the home page; then the two workers crawl the pages
  \<open>a\<close> and \<open>b\<close>, and each looks up the link to \<open>c\<close> before the other marks it.\<close>

definition race_schedule :: "event list" where
  "race_schedule =
     replicate 4 m_step @ replicate 21 w0_step @ replicate 5 w1_step @ replicate 4 w0_step @
     [w0_step, w1_step] @ replicate 3 w0_step @ replicate 3 w1_step"

text \<open>\<^verbatim>\<open>Start\<close> has sent the seed and not yet marked it; the first worker crawls the
  home page and follows its link to itself.\<close>

definition seed_race_schedule :: "event list" where
  "seed_race_schedule = replicate 3 m_step @ replicate 9 w0_step"

text \<open>
  A wide site: one page that links to 1001 pages of the same host, which do not
  exist. The \<open>k\<close>-th link has a path of \<open>k\<close> letters. One worker crawls it.
\<close>

definition wide_link :: "nat \<Rightarrow> string" where
  "wide_link k = ''https://h.test/'' @ replicate k CHR ''x'' @ ''/''"

definition wide_links :: "string list" where
  "wide_links = map wide_link [1..<1002]"

definition wide_web :: web where
  "wide_web t u = (if u = ''https://h.test/'' then html_page ''Wide'' wide_links else not_found)"

definition wide_cfg :: Config where
  "wide_cfg = \<lparr>StartURL = ''https://h.test/'', MaxDepth = 1, NumWorkers = 1, Timeout = 0,
     RateLimit = 0\<rparr>"

text \<open>\<^verbatim>\<open>Start\<close> seeds the crawl; the worker takes the home page and sends the first
  1000 links; it marks and counts the last one and comes to send it.\<close>

definition wide_schedule :: "event list" where
  "wide_schedule =
     replicate 4 (Step MainT) @ replicate 5 (Step (WorkerT 0)) @
     replicate (4 * 1000) (Step (WorkerT 0)) @ replicate 3 (Step (WorkerT 0))"

section \<open>Properties of the storage sinks\<close>

text \<open>
  C10. For every slice of crawler results that \<^verbatim>\<open>Start\<close> passes to the JSON sink,
  \<^verbatim>\<open>getResultCount\<close> returns 0, since a \<^verbatim>\<open>[]Result\<close> is neither a
  \<^verbatim>\<open>[]interface{}\<close> nor a \<^verbatim>\<open>[]struct{}\<close>; so the \<^verbatim>\<open>count\<close> of the written
  document equals the number of results exactly when there are none.
\<close>

theorem getResultCount_Result_slice:
  "getResultCount (results_value rs) = 0 \<and>
   (json_Save True True now (results_value rs) = Inr out \<longrightarrow>
      out_count out = 0 \<and> (out_count out = int (length rs) \<longleftrightarrow> rs = []))"
  by (auto simp: results_value_def json_Save_def Let_def)

theorem getResultCount_Result_slice_witness:
  "getResultCount (results_value [result_3_links, result_0_links]) = 0 \<and>
   json_Save True True 9 (results_value [result_3_links, result_0_links]) =
     Inr \<lparr>out_results = results_value [result_3_links, result_0_links],
          out_count = 0, out_timestamp = 9\<rparr> \<and>
   int (length [result_3_links, result_0_links]) = 2"
  using getResultCount_Result_slice [of "[result_3_links, result_0_links]" 9
      "\<lparr>out_results = results_value [result_3_links, result_0_links],
        out_count = 0, out_timestamp = 9\<rparr>"]
  by (simp add: json_Save_def results_value_def)

lemma digits_small: "n < 10 \<Longrightarrow> digits n = [''0123456789'' ! n]"
  by (simp add: digits.simps)

lemma Itoa_3: "Itoa (Suc (Suc (Suc 0))) = ''3''"
  by (simp add: Itoa_def FormatInt_def digits_small)

lemma Itoa_0: "Itoa 0 = ''0''"
  by (simp add: Itoa_def FormatInt_def digits_small)

text \<open>
  C9. Two results with 3 and 0 links, every file operation succeeding: \<^verbatim>\<open>Save\<close> of
  the CSV sink writes a header row and exactly two data rows. The header has eight
  columns, \<^verbatim>\<open>links\<close> fifth and \<^verbatim>\<open>LinksCount\<close> eighth; each data row has seven
  cells, the link counts \<^verbatim>\<open>3\<close> and \<^verbatim>\<open>0\<close> fifth, under \<^verbatim>\<open>links\<close>, and no cell
  under \<^verbatim>\<open>LinksCount\<close>.
\<close>

theorem csv_Save_two_results:
  "csv_Save fm all_ok hidden
     (results_value [r1\<lparr>Links := [l1, l2, l3]\<rparr>, r2\<lparr>Links := []\<rparr>]) =
   ([[''url'', ''title'', ''status_code'', ''content_length'', ''links'', ''depth'',
      ''timestamp'', ''LinksCount''],
     [URL r1, Title r1, FormatInt (StatusCode r1), FormatInt (ContentLength r1), ''3'',
      FormatInt (Depth r1), RFC3339 fm (Timestamp r1)],
     [URL r2, Title r2, FormatInt (StatusCode r2), FormatInt (ContentLength r2), ''0'',
      FormatInt (Depth r2), RFC3339 fm (Timestamp r2)]],
    None)"
  by (simp add: csv_Save_def results_value_def reflect_Result_def struct_fields_def
      all_ok_def csv_headers_def csv_row_def Itoa_3 Itoa_0)

section \<open>Lemmas about the engine\<close>

subsection \<open>Runs, and what the shared operations leave alone\<close>

lemma run_append:
  "run net (xs @ ys) c = (case run net xs c of None \<Rightarrow> None | Some c' \<Rightarrow> run net ys c')"
  by (induction xs arbitrary: c) (auto split: option.splits)

lemma run_invariant:
  assumes "run net evs c0 = Some c" and "P c0"
    and "\<And>c ev c'. P c \<Longrightarrow> step net ev c = Some c' \<Longrightarrow> P c'"
  shows "P c"
  using assms(1,2)
proof (induction evs arbitrary: c0)
  case Nil
  then show ?case by simp
next
  case (Cons ev evs)
  then show ?case using assms(3) by (auto split: option.splits)
qed

lemma list_all_update:
  "list_all P xs \<Longrightarrow> P x \<Longrightarrow> list_all P (xs[i := x])"
  by (induction xs arbitrary: i) (auto split: nat.splits)

lemma list_all_nth:
  "list_all P xs \<Longrightarrow> i < length xs \<Longrightarrow> P (xs ! i)"
  by (simp add: list_all_length)

lemma logf_fields [simp]:
  "config (logf m c) = config c" "seen (logf m c) = seen c" "results (logf m c) = results c"
  "jobs (logf m c) = jobs c" "jobs_closed (logf m c) = jobs_closed c"
  "ctx_done (logf m c) = ctx_done c" "pendingJobs (logf m c) = pendingJobs c"
  "startURL (logf m c) = startURL c" "baseDomain (logf m c) = baseDomain c"
  "main_pc (logf m c) = main_pc c" "workers (logf m c) = workers c"
  "logs (logf m c) = logs c @ m" "closes (logf m c) = closes c"
  "panicked (logf m c) = panicked c" "clock (logf m c) = clock c"
  by (simp_all add: logf_def)

lemma incrementPendingJobs_fields [simp]:
  "config (incrementPendingJobs c) = config c" "seen (incrementPendingJobs c) = seen c"
  "results (incrementPendingJobs c) = results c" "jobs (incrementPendingJobs c) = jobs c"
  "jobs_closed (incrementPendingJobs c) = jobs_closed c"
  "ctx_done (incrementPendingJobs c) = ctx_done c"
  "pendingJobs (incrementPendingJobs c) = pendingJobs c + 1"
  "startURL (incrementPendingJobs c) = startURL c"
  "baseDomain (incrementPendingJobs c) = baseDomain c"
  "main_pc (incrementPendingJobs c) = main_pc c" "workers (incrementPendingJobs c) = workers c"
  "logs (incrementPendingJobs c) = logs c @ [LogPendingIncremented (pendingJobs c + 1)]"
  "closes (incrementPendingJobs c) = closes c" "panicked (incrementPendingJobs c) = panicked c"
  "clock (incrementPendingJobs c) = clock c"
  by (simp_all add: incrementPendingJobs_def)

lemma decrementPendingJobs_fields [simp]:
  "config (decrementPendingJobs c) = config c" "seen (decrementPendingJobs c) = seen c"
  "results (decrementPendingJobs c) = results c" "jobs (decrementPendingJobs c) = jobs c"
  "ctx_done (decrementPendingJobs c) = ctx_done c"
  "pendingJobs (decrementPendingJobs c) = pendingJobs c - 1"
  "startURL (decrementPendingJobs c) = startURL c"
  "baseDomain (decrementPendingJobs c) = baseDomain c"
  "main_pc (decrementPendingJobs c) = main_pc c" "workers (decrementPendingJobs c) = workers c"
  "clock (decrementPendingJobs c) = clock c"
  by (simp_all add: decrementPendingJobs_def close_jobs_def Let_def)

lemma decrementPendingJobs_close:
  "jobs_closed (decrementPendingJobs c) = (jobs_closed c \<or> pendingJobs c = 1)"
  "closes (decrementPendingJobs c) = (if pendingJobs c = 1 then closes c + 1 else closes c)"
  "panicked (decrementPendingJobs c) = (panicked c \<or> (pendingJobs c = 1 \<and> jobs_closed c))"
  by (auto simp: decrementPendingJobs_def close_jobs_def Let_def)

lemma decrementPendingJobs_logs:
  "logs (decrementPendingJobs c) =
     logs c @ [LogPendingDecremented (pendingJobs c - 1)] @
     (if pendingJobs c \<le> 1 then [LogAllJobsCompleted] else [])"
  by (auto simp: decrementPendingJobs_def close_jobs_def Let_def)

lemma markURLSeen_fields [simp]:
  "config (markURLSeen u c) = config c" "seen (markURLSeen u c) = (seen c)(u := True)"
  "results (markURLSeen u c) = results c" "jobs (markURLSeen u c) = jobs c"
  "jobs_closed (markURLSeen u c) = jobs_closed c" "ctx_done (markURLSeen u c) = ctx_done c"
  "pendingJobs (markURLSeen u c) = pendingJobs c" "startURL (markURLSeen u c) = startURL c"
  "baseDomain (markURLSeen u c) = baseDomain c" "main_pc (markURLSeen u c) = main_pc c"
  "workers (markURLSeen u c) = workers c" "logs (markURLSeen u c) = logs c"
  "closes (markURLSeen u c) = closes c" "panicked (markURLSeen u c) = panicked c"
  "clock (markURLSeen u c) = clock c"
  by (simp_all add: markURLSeen_def)

lemma send_job_Some:
  "send_job j c = Some c' \<Longrightarrow>
     (jobs_closed c \<and> c' = c\<lparr>panicked := True\<rparr>) \<or>
     (\<not> jobs_closed c \<and> length (jobs c) < jobsCap \<and> c' = c\<lparr>jobs := jobs c @ [j]\<rparr>)"
  by (auto simp: send_job_def split: if_splits)

subsection \<open>Depth and domain are preserved\<close>

lemma crawlURL_result:
  "crawlURL net t u d = (r, e, lg) \<Longrightarrow> URL r = u \<and> Depth r = d"
  by (auto simp: crawlURL_def Let_def split: if_splits sum.splits option.splits)

lemma safe_New: "safe cfg (New cfg)"
  by (simp add: safe_def New_def started_def)

lemma worker_step_frame:
  "worker_step net i w c = Some (w', c') \<Longrightarrow>
     config c' = config c \<and> baseDomain c' = baseDomain c \<and> startURL c' = startURL c \<and>
     main_pc c' = main_pc c \<and> workers c' = workers c \<and> ctx_done c' = ctx_done c \<and> clock c' = clock c"
  by (cases "(net, i, w, c)" rule: worker_step.cases)
     (auto dest!: send_job_Some split: if_splits option.splits list.splits sum.splits prod.splits)

lemma worker_step_safe:
  assumes "worker_step net i w c = Some (w', c')"
    and "MaxDepth (config c) = D" and "baseDomain c = b"
    and "w_ok D b w"
    and "list_all (job_ok D b) (jobs c)"
    and "list_all (res_ok D b) (results c)"
  shows "w_ok D b w' \<and> list_all (job_ok D b) (jobs c') \<and> list_all (res_ok D b) (results c')"
proof (cases w)
  case (W_Crawl j)
  obtain r e lg where cr: "crawlURL net (clock c) (url j) (depth j) = (r, e, lg)"
    by (cases "crawlURL net (clock c) (url j) (depth j)") auto
  from crawlURL_result [OF cr] W_Crawl cr assms show ?thesis
    by (auto split: option.splits)
next
  case (W_Links j ls n)
  with assms show ?thesis
    by (cases ls)
       (auto simp: hasURLBeenSeen_def in_domain_def split: if_splits sum.splits)
next
  case (W_Append j r)
  with assms show ?thesis
    by (auto simp: res_ok_def job_ok_def split: if_splits)
next
  case (W_Send j l ls n)
  with assms show ?thesis
    by (auto simp: job_ok_def dest!: send_job_Some)
qed (use assms in \<open>auto split: if_splits list.splits\<close>)

lemma worker_cancelled_frame:
  "worker_cancelled i w c = Some (w', c') \<Longrightarrow>
     config c' = config c \<and> baseDomain c' = baseDomain c \<and> startURL c' = startURL c \<and>
     main_pc c' = main_pc c \<and> workers c' = workers c \<and> ctx_done c' = ctx_done c \<and>
     clock c' = clock c \<and> jobs c' = jobs c \<and> results c' = results c \<and> seen c' = seen c \<and>
     (\<exists>r. w' = W_Exit r)"
  by (cases "(i, w, c)" rule: worker_cancelled.cases) auto

lemma defaults_fields [simp]:
  "StartURL (defaults cfg) = StartURL cfg"
  "0 < MaxDepth (defaults cfg)"
  "0 \<le> MaxDepth (defaults cfg)"
  "0 < NumWorkers (defaults cfg)"
  by (simp_all add: defaults_def)

lemma MaxDepth_defaults:
  "MaxDepth (defaults cfg) = (if MaxDepth cfg \<le> 0 then 2 else MaxDepth cfg)"
  by (simp add: defaults_def)

lemma list_all_replicate_W_Start [simp]: "list_all (w_ok D b) (replicate n W_Start)"
  by (simp add: list_all_iff)

lemma main_step_safe:
  assumes "main_step (main_pc c) c = Some c'" and "safe cfg c"
  shows "safe cfg c'"
proof (cases "main_pc c")
  case M_Start
  from assms(2) have cf: "config c = defaults cfg" by (simp add: safe_def)
  from assms(2) M_Start have e: "jobs c = []" "results c = []" "workers c = []"
    by (simp_all add: safe_def started_def)
  show ?thesis
  proof (cases "NormalizeURL (StartURL cfg)")
    case (Inl err)
    with assms(1) M_Start cf e show ?thesis by (auto simp: safe_def started_def)
  next
    case (Inr start)
    show ?thesis
    proof (cases "url_Parse start")
      case (Inl err)
      with Inr assms(1) M_Start cf e show ?thesis by (auto simp: safe_def started_def)
    next
      case (Inr baseURL)
      with \<open>NormalizeURL (StartURL cfg) = Inr start\<close> assms(1) M_Start cf e show ?thesis
        by (auto simp: safe_def started_def in_domain_def)
    qed
  qed
next
  case M_Send
  from assms(2) M_Send have d: "in_domain (baseDomain c) (startURL c)"
    by (simp add: safe_def started_def)
  have "job_ok (MaxDepth (defaults cfg)) (baseDomain c) \<lparr>url = startURL c, depth = 0\<rparr>"
    using d by (simp add: job_ok_def)
  with assms M_Send show ?thesis
    by (auto simp: safe_def started_def dest!: send_job_Some)
next
  case M_Inc
  with assms show ?thesis by (auto simp: safe_def started_def)
next
  case M_Mark
  with assms show ?thesis by (auto simp: safe_def started_def)
next
  case M_Wait
  with assms show ?thesis by (auto simp: safe_def started_def split: if_splits)
qed (use assms in auto)

lemma main_cancelled_safe:
  assumes "main_cancelled (main_pc c) c = Some c'" and "safe cfg c"
  shows "safe cfg c'"
  using assms by (cases "main_pc c") (auto simp: safe_def started_def)

lemma fire_safe:
  assumes "fire net ev c = Some c'" and "safe cfg c"
  shows "safe cfg c'"
proof (cases ev)
  case (Step t)
  show ?thesis
  proof (cases t)
    case MainT
    with Step assms show ?thesis by (simp add: main_step_safe)
  next
    case (WorkerT i)
    with Step assms obtain w' c1 where
      i: "i < length (workers c)" and
      ws: "worker_step net i (workers c ! i) c = Some (w', c1)" and
      c': "c' = c1\<lparr>workers := (workers c1)[i := w']\<rparr>"
      by (auto simp: put_worker_def split: if_splits)
    from assms(2) have cf: "MaxDepth (config c) = MaxDepth (defaults cfg)"
      and js: "list_all (job_ok (MaxDepth (defaults cfg)) (baseDomain c)) (jobs c)"
      and wk: "list_all (w_ok (MaxDepth (defaults cfg)) (baseDomain c)) (workers c)"
      and rs: "list_all (res_ok (MaxDepth (defaults cfg)) (baseDomain c)) (results c)"
      by (simp_all add: safe_def)
    from wk i have ok: "w_ok (MaxDepth (defaults cfg)) (baseDomain c) (workers c ! i)"
      by (rule list_all_nth)
    from worker_step_safe [OF ws cf refl ok js rs] worker_step_frame [OF ws] wk
    have "list_all (w_ok (MaxDepth (defaults cfg)) (baseDomain c)) ((workers c1)[i := w'])"
      and "list_all (job_ok (MaxDepth (defaults cfg)) (baseDomain c)) (jobs c1)"
      and "list_all (res_ok (MaxDepth (defaults cfg)) (baseDomain c)) (results c1)"
      by (simp_all add: list_all_update)
    moreover from ws i assms(2) have "jobs c1 = [] \<and> results c1 = [] \<or> started (main_pc c)"
      by (auto simp: safe_def split: if_splits)
    ultimately show ?thesis
      using worker_step_frame [OF ws] assms(2) c'
      by (auto simp: safe_def split: if_splits)
  qed
next
  case (Cancelled t)
  show ?thesis
  proof (cases t)
    case MainT
    with Cancelled assms show ?thesis by (auto simp: main_cancelled_safe split: if_splits)
  next
    case (WorkerT i)
    with Cancelled assms obtain w' c1 where
      ws: "worker_cancelled i (workers c ! i) c = Some (w', c1)" and
      c': "c' = c1\<lparr>workers := (workers c1)[i := w']\<rparr>"
      by (auto simp: put_worker_def split: if_splits)
    from worker_cancelled_frame [OF ws] obtain r where "w' = W_Exit r" by blast
    with worker_cancelled_frame [OF ws] assms(2) c' show ?thesis
      by (auto simp: safe_def list_all_update split: if_splits)
  qed
next
  case Stop
  with assms show ?thesis by (auto simp: safe_def)
qed

lemma step_safe:
  assumes "step net ev c = Some c'" and "safe cfg c"
  shows "safe cfg c'"
proof -
  from assms(1) obtain c1 where f: "fire net ev c = Some c1" and c': "c' = c1\<lparr>clock := clock c + 1\<rparr>"
    by (auto simp: step_def split: if_splits)
  from fire_safe [OF f assms(2)] c' show ?thesis by (simp add: safe_def)
qed

lemma run_safe: "run net evs (New cfg) = Some c \<Longrightarrow> safe cfg c"
  by (rule run_invariant [where P = "safe cfg"]) (auto simp: safe_New step_safe)

subsection \<open>The counter counts the jobs\<close>

lemma held_update:
  "i < length ws \<Longrightarrow>
     int (sum_list (map held (ws[i := w]))) =
       int (sum_list (map held ws)) - int (held (ws ! i)) + int (held w)"
proof (induction ws arbitrary: i)
  case Nil
  then show ?case by simp
next
  case (Cons a ws)
  then show ?case by (cases i) auto
qed

lemma held_le_sum:
  "i < length ws \<Longrightarrow> held (ws ! i) \<le> sum_list (map held ws)"
  by (metis elem_le_sum_list length_map nth_map)

lemma counting_New: "counting (New cfg)"
  by (simp add: counting_def New_def seeded_def)

lemma countingD:
  assumes "counting c"
  shows "pendingJobs c = int (length (jobs c)) + int (sum_list (map held (workers c))) +
                      (if main_pc c = M_Send then 1 else 0)"
    and "\<not> panicked c"
    and "closes c = (if jobs_closed c then 1 else 0)"
    and "jobs_closed c \<Longrightarrow> pendingJobs c = 0 \<and> seeded (main_pc c)"
    and "\<not> jobs_closed c \<Longrightarrow> seeded (main_pc c) \<Longrightarrow> 1 \<le> pendingJobs c"
    and "\<not> seeded (main_pc c) \<Longrightarrow> main_pc c \<noteq> M_Send \<Longrightarrow> pendingJobs c = 0"
  using assms unfolding counting_def by blast+

lemma countingI:
  assumes "pendingJobs c = int (length (jobs c)) + int (sum_list (map held (workers c))) +
                      (if main_pc c = M_Send then 1 else 0)"
    and "\<not> panicked c"
    and "closes c = (if jobs_closed c then 1 else 0)"
    and "jobs_closed c \<Longrightarrow> pendingJobs c = 0 \<and> seeded (main_pc c)"
    and "\<not> jobs_closed c \<Longrightarrow> seeded (main_pc c) \<Longrightarrow> 1 \<le> pendingJobs c"
    and "\<not> seeded (main_pc c) \<Longrightarrow> main_pc c \<noteq> M_Send \<Longrightarrow> pendingJobs c = 0"
  shows "counting c"
  using assms unfolding counting_def by blast

lemma counting_clock [simp]: "counting (c\<lparr>clock := t\<rparr>) = counting c"
  by (simp add: counting_def)

text \<open>What a step of a worker does to the counter, the queue and the channel, by the
  units the worker holds before and after.\<close>

lemma worker_step_counting:
  assumes "worker_step net i w c = Some (w', c')"
    and "int (held w) \<le> pendingJobs c"
    and "jobs_closed c \<longrightarrow> pendingJobs c = 0"
    and "\<not> panicked c"
  shows "pendingJobs c' - int (length (jobs c')) - int (held w') =
           pendingJobs c - int (length (jobs c)) - int (held w) \<and>
         \<not> panicked c' \<and>
         (if pendingJobs c \<noteq> 0 \<and> pendingJobs c' = 0
          then closes c' = closes c + 1 \<and> jobs_closed c' \<and> \<not> jobs_closed c
          else closes c' = closes c \<and> jobs_closed c' = jobs_closed c) \<and>
         (pendingJobs c = 0 \<longrightarrow> pendingJobs c' = 0)"
proof (cases w)
  case (W_Crawl j)
  with assms show ?thesis
    by (cases "crawlURL net (clock c) (url j) (depth j)") (auto split: option.splits)
next
  case (W_Links j ls n)
  with assms show ?thesis
    by (cases ls) (auto split: if_splits sum.splits)
next
  case (W_Send j l ls n)
  with assms show ?thesis by (auto dest!: send_job_Some)
next
  case (W_ErrDec j)
  with assms show ?thesis by (auto simp: decrementPendingJobs_close)
next
  case (W_Dec j)
  with assms show ?thesis by (auto simp: decrementPendingJobs_close)
next
  case W_Recv
  with assms show ?thesis by (auto split: list.splits if_splits)
qed (use assms in \<open>auto split: if_splits\<close>)

lemma worker_cancelled_counting:
  assumes "worker_cancelled i w c = Some (w', c')"
    and "int (held w) \<le> pendingJobs c"
    and "jobs_closed c \<longrightarrow> pendingJobs c = 0"
    and "\<not> panicked c"
  shows "pendingJobs c' - int (length (jobs c')) - int (held w') =
           pendingJobs c - int (length (jobs c)) - int (held w) \<and>
         \<not> panicked c' \<and>
         (if pendingJobs c \<noteq> 0 \<and> pendingJobs c' = 0
          then closes c' = closes c + 1 \<and> jobs_closed c' \<and> \<not> jobs_closed c
          else closes c' = closes c \<and> jobs_closed c' = jobs_closed c) \<and>
         (pendingJobs c = 0 \<longrightarrow> pendingJobs c' = 0)"
  using assms
  by (cases "(i, w, c)" rule: worker_cancelled.cases) (auto simp: decrementPendingJobs_close)

lemma held_replicate_W_Start [simp]: "sum_list (map held (replicate n W_Start)) = 0"
  by (induction n) auto

text \<open>The step of one thread, seen from the counting invariant: the thread's units
  change as the counter and the queue do, and the channel is closed by exactly the
  steps that take the counter from a nonzero value to zero.\<close>

lemma thread_counting:
  assumes inv: "counting c"
    and i: "i < length (workers c)"
    and delta: "pendingJobs c1 - int (length (jobs c1)) - int (held w') =
           pendingJobs c - int (length (jobs c)) - int (held (workers c ! i))"
    and np: "\<not> panicked c1"
    and cl: "if pendingJobs c \<noteq> 0 \<and> pendingJobs c1 = 0
          then closes c1 = closes c + 1 \<and> jobs_closed c1 \<and> \<not> jobs_closed c
          else closes c1 = closes c \<and> jobs_closed c1 = jobs_closed c"
    and z: "pendingJobs c = 0 \<longrightarrow> pendingJobs c1 = 0"
    and fr: "main_pc c1 = main_pc c" "workers c1 = workers c"
  shows "counting (c1\<lparr>workers := (workers c1)[i := w']\<rparr>)"
proof (rule countingI)
  let ?c' = "c1\<lparr>workers := (workers c1)[i := w']\<rparr>"
  note d = countingD [OF inv]
  show cnt': "pendingJobs ?c' = int (length (jobs ?c')) + int (sum_list (map held (workers ?c'))) +
      (if main_pc ?c' = M_Send then 1 else 0)"
    using d(1) delta fr held_update [OF i, of w'] by simp
  then have nonneg: "0 \<le> pendingJobs c1" by simp
  from cnt' have ns: "pendingJobs c1 = 0 \<Longrightarrow> main_pc c \<noteq> M_Send"
    using fr by (auto split: if_splits)
  show "\<not> panicked ?c'" using np by simp
  consider (close) "pendingJobs c \<noteq> 0" "pendingJobs c1 = 0" "closes c1 = closes c + 1"
      "jobs_closed c1" "\<not> jobs_closed c"
    | (same) "\<not> (pendingJobs c \<noteq> 0 \<and> pendingJobs c1 = 0)" "closes c1 = closes c"
      "jobs_closed c1 = jobs_closed c"
    using cl by (auto split: if_splits)
  then show "closes ?c' = (if jobs_closed ?c' then 1 else 0)"
    using d(3) by cases auto
  show "pendingJobs ?c' = 0 \<and> seeded (main_pc ?c')" if "jobs_closed ?c'"
  proof (cases "pendingJobs c \<noteq> 0 \<and> pendingJobs c1 = 0")
    case True
    then have "main_pc c \<noteq> M_Send" using ns by simp
    with True d(6) have "seeded (main_pc c)" by blast
    with True fr show ?thesis by simp
  next
    case False
    with cl that have "jobs_closed c" by (auto split: if_splits)
    with d(4) z fr show ?thesis by simp
  qed
  show "1 \<le> pendingJobs ?c'" if "\<not> jobs_closed ?c'" "seeded (main_pc ?c')"
  proof -
    from that cl have nc: "\<not> jobs_closed c" and nz: "\<not> (pendingJobs c \<noteq> 0 \<and> pendingJobs c1 = 0)"
      by (auto split: if_splits)
    from d(5) [OF nc] that fr have "1 \<le> pendingJobs c" by simp
    with nz nonneg show ?thesis by simp
  qed
  show "pendingJobs ?c' = 0" if "\<not> seeded (main_pc ?c')" "main_pc ?c' \<noteq> M_Send"
    using that d(6) z fr by simp
qed

lemma main_step_counting:
  assumes "main_step (main_pc c) c = Some c'" and "counting c"
  shows "counting c' \<and>
         (if pendingJobs c \<noteq> 0 \<and> pendingJobs c' = 0 then closes c' = closes c + 1
          else closes c' = closes c)"
proof -
  note d = countingD [OF assms(2)]
  show ?thesis
  proof (cases "main_pc c")
    case M_Start
    with d have p: "pendingJobs c = 0" "\<not> jobs_closed c" by (auto simp: seeded_def)
    from d(1) p M_Start
    have "int (length (jobs c) + sum_list (map held (workers c))) = 0" by simp
    then have "length (jobs c) + sum_list (map held (workers c)) = 0" by (simp only: of_nat_eq_0_iff)
    then have e: "jobs c = []" "sum_list (map held (workers c)) = 0" by simp_all
    have ok: "counting (c\<lparr>main_pc := M_Failed err\<rparr>)" for err
      using d p M_Start by (intro countingI) (auto simp: seeded_def)
    have ok': "counting (c\<lparr>startURL := s, baseDomain := b,
                  workers := replicate n W_Start, main_pc := M_Inc\<rparr>)" for s b n
      using d p e by (intro countingI) (auto simp: seeded_def)
    show ?thesis
    proof (cases "NormalizeURL (StartURL (config c))")
      case (Inl err)
      with assms(1) M_Start have "c' = c\<lparr>main_pc := M_Failed err\<rparr>" by simp
      with ok p show ?thesis by simp
    next
      case (Inr start)
      show ?thesis
      proof (cases "url_Parse start")
        case (Inl err)
        with Inr assms(1) M_Start have "c' = c\<lparr>main_pc := M_Failed err\<rparr>" by simp
        with ok p show ?thesis by simp
      next
        case (Inr baseURL)
        with \<open>NormalizeURL (StartURL (config c)) = Inr start\<close> assms(1) M_Start
        have "c' = c\<lparr>startURL := start, baseDomain := Host baseURL,
                  workers := replicate (nat (NumWorkers (config c))) W_Start, main_pc := M_Inc\<rparr>"
          by simp
        with ok' p show ?thesis by simp
      qed
    qed
  next
    case M_Inc
    with d have p: "pendingJobs c = 0" "\<not> jobs_closed c" by (auto simp: seeded_def)
    from assms(1) M_Inc have c': "c' = (incrementPendingJobs (logf [LogAddingStartURL] c))\<lparr>main_pc := M_Send\<rparr>"
      by simp
    have "counting c'" unfolding c'
      using d p M_Inc by (intro countingI) (auto simp: seeded_def)
    with p c' show ?thesis by simp
  next
    case M_Send
    with d have nc: "\<not> jobs_closed c" by (auto simp: seeded_def)
    from assms(1) M_Send nc have c': "c' = c\<lparr>jobs := jobs c @ [\<lparr>url = startURL c, depth = 0\<rparr>], main_pc := M_Mark\<rparr>"
      by (auto dest!: send_job_Some)
    have "counting c'" unfolding c'
      using d nc M_Send by (intro countingI) (auto simp: seeded_def)
    moreover from d(1) M_Send have "pendingJobs c \<noteq> 0" by simp
    ultimately show ?thesis using c' by simp
  next
    case M_Mark
    from assms(1) M_Mark have c': "c' = (markURLSeen (startURL c) c)\<lparr>main_pc := M_Wait\<rparr>"
      by simp
    have "counting c'" unfolding c'
      using d M_Mark by (intro countingI) (auto simp: seeded_def)
    with c' show ?thesis by simp
  next
    case M_Wait
    from assms(1) M_Wait have c': "c' = (logf [LogAllWorkersCompleted, LogCrawlingCompleted] c)\<lparr>main_pc := M_Returned\<rparr>"
      by (auto split: if_splits)
    have "counting c'" unfolding c'
      using d M_Wait by (intro countingI) (auto simp: seeded_def)
    with c' show ?thesis by simp
  qed (use assms in auto)
qed

lemma main_cancelled_counting:
  assumes "main_cancelled (main_pc c) c = Some c'" and "counting c"
  shows "counting c' \<and>
         (if pendingJobs c \<noteq> 0 \<and> pendingJobs c' = 0 then closes c' = closes c + 1
          else closes c' = closes c)"
proof -
  note d = countingD [OF assms(2)]
  from assms(1) have pc: "main_pc c = M_Wait"
    and c': "c' = (logf [LogCrawlingCancelled] c)\<lparr>main_pc := M_Returned\<rparr>"
    by (cases "main_pc c"; simp)+
  have "counting c'" unfolding c'
    using d pc by (intro countingI) (auto simp: seeded_def)
  with c' show ?thesis by simp
qed

lemma fire_counting:
  assumes "fire net ev c = Some c'" and "counting c"
  shows "counting c' \<and>
         (if pendingJobs c \<noteq> 0 \<and> pendingJobs c' = 0 then closes c' = closes c + 1
          else closes c' = closes c)"
proof -
  note d = countingD [OF assms(2)]
  have cz: "jobs_closed c \<longrightarrow> pendingJobs c = 0" using d(4) by blast
  have le: "int (held (workers c ! i)) \<le> pendingJobs c" if "i < length (workers c)" for i
    using held_le_sum [OF that] d(1) by (auto split: if_splits)
  show ?thesis
  proof (cases ev)
    case (Step t)
    show ?thesis
    proof (cases t)
      case MainT
      with Step assms show ?thesis by (simp add: main_step_counting)
    next
      case (WorkerT i)
      with Step assms obtain w' c1 where
        i: "i < length (workers c)" and
        ws: "worker_step net i (workers c ! i) c = Some (w', c1)" and
        c': "c' = c1\<lparr>workers := (workers c1)[i := w']\<rparr>"
        by (auto simp: put_worker_def split: if_splits)
      note k = worker_step_counting [OF ws le [OF i] cz d(2)]
      note f = worker_step_frame [OF ws]
      have "counting c'" unfolding c'
        by (rule thread_counting [OF assms(2) i]) (use k f in blast)+
      moreover have "pendingJobs c' = pendingJobs c1" "closes c' = closes c1"
        using c' by simp_all
      ultimately show ?thesis using k by (auto split: if_splits)
    qed
  next
    case (Cancelled t)
    show ?thesis
    proof (cases t)
      case MainT
      with Cancelled assms show ?thesis
        by (auto simp: main_cancelled_counting split: if_splits)
    next
      case (WorkerT i)
      with Cancelled assms obtain w' c1 where
        i: "i < length (workers c)" and
        ws: "worker_cancelled i (workers c ! i) c = Some (w', c1)" and
        c': "c' = c1\<lparr>workers := (workers c1)[i := w']\<rparr>"
        by (auto simp: put_worker_def split: if_splits)
      note k = worker_cancelled_counting [OF ws le [OF i] cz d(2)]
      note f = worker_cancelled_frame [OF ws]
      have "counting c'" unfolding c'
        by (rule thread_counting [OF assms(2) i]) (use k f in blast)+
      moreover have "pendingJobs c' = pendingJobs c1" "closes c' = closes c1"
        using c' by simp_all
      ultimately show ?thesis using k by (auto split: if_splits)
    qed
  next
    case Stop
    with assms have c': "c' = c\<lparr>ctx_done := True\<rparr>" by simp
    have "counting c'" unfolding c'
      using d by (intro countingI) auto
    with c' show ?thesis by simp
  qed
qed

lemma step_counting:
  assumes "step net ev c = Some c'" and "counting c"
  shows "counting c' \<and>
         (if pendingJobs c \<noteq> 0 \<and> pendingJobs c' = 0 then closes c' = closes c + 1
          else closes c' = closes c)"
proof -
  from assms(1) obtain c1 where f: "fire net ev c = Some c1" and c': "c' = c1\<lparr>clock := clock c + 1\<rparr>"
    by (auto simp: step_def split: if_splits)
  from fire_counting [OF f assms(2)] c' show ?thesis by simp
qed

lemma run_counting: "run net evs (New cfg) = Some c \<Longrightarrow> counting c"
  by (rule run_invariant [where P = counting]) (auto simp: counting_New step_counting)

subsection \<open>How the threads leave\<close>

lemma exit_ok_mono:
  "exit_ok a b w \<Longrightarrow> (a \<longrightarrow> a') \<Longrightarrow> (b \<longrightarrow> b') \<Longrightarrow> exit_ok a' b' w"
  by (cases "(a, b, w)" rule: exit_ok.cases) auto

lemma list_all_exit_ok_mono:
  "list_all (exit_ok a b) ws \<Longrightarrow> (a \<longrightarrow> a') \<Longrightarrow> (b \<longrightarrow> b') \<Longrightarrow> list_all (exit_ok a' b') ws"
  by (induction ws) (auto intro: exit_ok_mono)

lemma worker_step_exit:
  assumes "worker_step net i w c = Some (w', c')"
  shows "(jobs_closed c \<longrightarrow> jobs_closed c') \<and> exit_ok (jobs_closed c') (ctx_done c') w' \<and>
         (\<forall>r. w \<noteq> W_Exit r)"
proof (cases w)
  case (W_Crawl j)
  with assms show ?thesis
    by (cases "crawlURL net (clock c) (url j) (depth j)") (auto split: option.splits)
next
  case (W_Links j ls n)
  with assms show ?thesis by (cases ls) (auto split: if_splits sum.splits)
next
  case (W_Send j l ls n)
  with assms show ?thesis by (auto dest!: send_job_Some)
next
  case W_Recv
  with assms show ?thesis by (auto split: list.splits if_splits)
qed (use assms in \<open>auto simp: decrementPendingJobs_close split: if_splits\<close>)

lemma worker_cancelled_exit:
  assumes "worker_cancelled i w c = Some (w', c')" and "ctx_done c"
  shows "(jobs_closed c \<longrightarrow> jobs_closed c') \<and> exit_ok (jobs_closed c') (ctx_done c') w' \<and>
         (\<forall>r. w \<noteq> W_Exit r)"
  using assms
  by (cases "(i, w, c)" rule: worker_cancelled.cases) (auto simp: decrementPendingJobs_close)

lemma all_exited_nth:
  "all_exited ws \<Longrightarrow> i < length ws \<Longrightarrow> \<exists>r. ws ! i = W_Exit r"
  unfolding all_exited_def list_all_length
  by (cases "ws ! i") auto

lemma leaving_New: "leaving (New cfg)"
  by (simp add: leaving_def New_def started_def)

lemma leavingD:
  assumes "leaving c"
  shows "list_all (exit_ok (jobs_closed c) (ctx_done c)) (workers c)"
    and "main_pc c = M_Returned \<Longrightarrow> \<not> ctx_done c \<Longrightarrow> all_exited (workers c)"
    and "started (main_pc c) \<Longrightarrow> workers c \<noteq> []"
    and "0 < NumWorkers (config c)"
  using assms unfolding leaving_def by blast+

lemma leavingI:
  assumes "list_all (exit_ok (jobs_closed c) (ctx_done c)) (workers c)"
    and "main_pc c = M_Returned \<Longrightarrow> \<not> ctx_done c \<Longrightarrow> all_exited (workers c)"
    and "started (main_pc c) \<Longrightarrow> workers c \<noteq> []"
    and "0 < NumWorkers (config c)"
  shows "leaving c"
  using assms unfolding leaving_def by blast

lemma leaving_clock [simp]: "leaving (c\<lparr>clock := t\<rparr>) = leaving c"
  by (simp add: leaving_def)

lemma thread_leaving:
  assumes inv: "leaving c"
    and i: "i < length (workers c)"
    and ex: "(jobs_closed c \<longrightarrow> jobs_closed c1) \<and> exit_ok (jobs_closed c1) (ctx_done c1) w' \<and>
             (\<forall>r. workers c ! i \<noteq> W_Exit r)"
    and fr: "main_pc c1 = main_pc c" "workers c1 = workers c" "ctx_done c1 = ctx_done c"
      "config c1 = config c"
  shows "leaving (c1\<lparr>workers := (workers c1)[i := w']\<rparr>)"
proof (rule leavingI)
  let ?c' = "c1\<lparr>workers := (workers c1)[i := w']\<rparr>"
  note d = leavingD [OF inv]
  from d(1) ex fr have "list_all (exit_ok (jobs_closed c1) (ctx_done c1)) (workers c)"
    by (auto intro: list_all_exit_ok_mono)
  with ex fr show "list_all (exit_ok (jobs_closed ?c') (ctx_done ?c')) (workers ?c')"
    by (simp add: list_all_update)
  show "all_exited (workers ?c')" if "main_pc ?c' = M_Returned" "\<not> ctx_done ?c'"
  proof -
    from that fr d(2) have "all_exited (workers c)" by simp
    from all_exited_nth [OF this i] ex show ?thesis by blast
  qed
  show "workers ?c' \<noteq> []" if "started (main_pc ?c')"
    using that d(3) fr by simp
  show "0 < NumWorkers (config ?c')" using d(4) fr by simp
qed

lemma main_step_leaving:
  assumes "main_step (main_pc c) c = Some c'" and "leaving c"
  shows "leaving c'"
proof -
  note d = leavingD [OF assms(2)]
  show ?thesis
  proof (cases "main_pc c")
    case M_Start
    have ok: "leaving (c\<lparr>main_pc := M_Failed err\<rparr>)" for err
      using d M_Start by (intro leavingI) (auto simp: started_def)
    have ok': "leaving (c\<lparr>startURL := s, baseDomain := b,
              workers := replicate (nat (NumWorkers (config c))) W_Start, main_pc := M_Inc\<rparr>)" for s b
      using d by (intro leavingI) (auto simp: started_def list_all_iff)
    from assms(1) M_Start ok ok' show ?thesis
      by (auto split: sum.splits)
  next
    case M_Inc
    with assms(1)
    have c': "c' = (incrementPendingJobs (logf [LogAddingStartURL] c))\<lparr>main_pc := M_Send\<rparr>"
      by simp
    show ?thesis unfolding c'
      using d M_Inc by (intro leavingI) (auto simp: started_def)
  next
    case M_Send
    with assms(1) obtain c1 where
      s: "send_job \<lparr>url = startURL c, depth = 0\<rparr> c = Some c1" and c': "c' = c1\<lparr>main_pc := M_Mark\<rparr>"
      by auto
    from send_job_Some [OF s] show ?thesis unfolding c'
      using d M_Send by (intro leavingI) (auto simp: started_def)
  next
    case M_Mark
    with assms(1)
    have c': "c' = (markURLSeen (startURL c) c)\<lparr>main_pc := M_Wait\<rparr>" by simp
    show ?thesis unfolding c'
      using d M_Mark by (intro leavingI) (auto simp: started_def)
  next
    case M_Wait
    with assms(1)
    have c': "c' = (logf [LogAllWorkersCompleted, LogCrawlingCompleted] c)\<lparr>main_pc := M_Returned\<rparr>"
      and a: "all_exited (workers c)"
      by (auto split: if_splits)
    show ?thesis unfolding c'
      using d M_Wait a by (intro leavingI) (auto simp: started_def)
  qed (use assms in auto)
qed

lemma fire_leaving:
  assumes "fire net ev c = Some c'" and "leaving c"
  shows "leaving c'"
proof -
  note d = leavingD [OF assms(2)]
  show ?thesis
  proof (cases ev)
    case (Step t)
    show ?thesis
    proof (cases t)
      case MainT
      with Step assms show ?thesis by (simp add: main_step_leaving)
    next
      case (WorkerT i)
      with Step assms obtain w' c1 where
        i: "i < length (workers c)" and
        ws: "worker_step net i (workers c ! i) c = Some (w', c1)" and
        c': "c' = c1\<lparr>workers := (workers c1)[i := w']\<rparr>"
        by (auto simp: put_worker_def split: if_splits)
      show ?thesis unfolding c'
        by (rule thread_leaving [OF assms(2) i worker_step_exit [OF ws]])
           (use worker_step_frame [OF ws] in simp_all)
    qed
  next
    case (Cancelled t)
    show ?thesis
    proof (cases t)
      case MainT
      with Cancelled assms(1) have pc: "main_pc c = M_Wait" and cd: "ctx_done c"
        and c': "c' = (logf [LogCrawlingCancelled] c)\<lparr>main_pc := M_Returned\<rparr>"
        by (cases "main_pc c"; auto split: if_splits)+
      show ?thesis unfolding c'
        using d pc cd by (intro leavingI) (auto simp: started_def)
    next
      case (WorkerT i)
      with Cancelled assms obtain w' c1 where
        i: "i < length (workers c)" and cd: "ctx_done c" and
        ws: "worker_cancelled i (workers c ! i) c = Some (w', c1)" and
        c': "c' = c1\<lparr>workers := (workers c1)[i := w']\<rparr>"
        by (auto simp: put_worker_def split: if_splits)
      show ?thesis unfolding c'
        by (rule thread_leaving [OF assms(2) i worker_cancelled_exit [OF ws cd]])
           (use worker_cancelled_frame [OF ws] in simp_all)
    qed
  next
    case Stop
    with assms have c': "c' = c\<lparr>ctx_done := True\<rparr>" by simp
    show ?thesis unfolding c'
      using d by (intro leavingI) (auto intro: list_all_exit_ok_mono)
  qed
qed

lemma step_leaving:
  assumes "step net ev c = Some c'" and "leaving c"
  shows "leaving c'"
proof -
  from assms(1) obtain c1 where f: "fire net ev c = Some c1" and c': "c' = c1\<lparr>clock := clock c + 1\<rparr>"
    by (auto simp: step_def split: if_splits)
  from fire_leaving [OF f assms(2)] c' show ?thesis by simp
qed

lemma run_leaving: "run net evs (New cfg) = Some c \<Longrightarrow> leaving c"
  by (rule run_invariant [where P = leaving]) (auto simp: leaving_New step_leaving)

section \<open>Properties of the URL utilities\<close>

text \<open>
  C5. Normalization is not idempotent on a URL whose host is an IPv6 literal with the
  default port: \<^verbatim>\<open>NormalizeURL\<close> succeeds on \<^verbatim>\<open>http://[::1]:80/\<close>, cutting the
  host at its first colon, and returns \<^verbatim>\<open>http://[/\<close>, on which it fails.
\<close>

theorem NormalizeURL_ipv6_default_port:
  "NormalizeURL ''http://[::1]:80/'' = Inr ''http://[/'' \<and>
   NormalizeURL ''http://[/'' = Inl MissingBracket"
  by code_simp

text \<open>
  The claim C6 as stated fails: with a base that does not parse, \<^verbatim>\<open>ResolveURL\<close>
  fails although the second argument is absolute; and an absolute URL whose scheme is
  written in upper case is not returned unchanged.
\<close>

theorem ResolveURL_absolute_counterexample:
  "ResolveURL '':'' ''https://example.com/x'' = Inl MissingProtocolScheme \<and>
   ResolveURL ''https://example.com/a/'' ''HTTPS://Example.com/x'' = Inr ''https://Example.com/x'' \<and>
   ''https://Example.com/x'' \<noteq> ''HTTPS://Example.com/x''"
  by code_simp

text \<open>
  C6, amended. When the base does not parse, \<^verbatim>\<open>ResolveURL\<close> fails with the error of
  the base, whatever the second argument. When the base parses and the second
  argument starts with \<^verbatim>\<open>http://\<close> or \<^verbatim>\<open>https://\<close>, it is returned unchanged. Any
  other second argument is parsed (an error is returned) and resolved against the base
  by \<^verbatim>\<open>ResolveReference\<close>, and the result is printed.
\<close>

theorem ResolveURL_cases:
  "(url_Parse b = Inl e \<longrightarrow> ResolveURL b r = Inl e) \<and>
   (url_Parse b = Inr base \<and> (HasPrefix r ''http://'' \<or> HasPrefix r ''https://'') \<longrightarrow>
      ResolveURL b r = Inr r) \<and>
   (url_Parse b = Inr base \<and> \<not> HasPrefix r ''http://'' \<and> \<not> HasPrefix r ''https://'' \<and>
    url_Parse r = Inl e \<longrightarrow> ResolveURL b r = Inl e) \<and>
   (url_Parse b = Inr base \<and> \<not> HasPrefix r ''http://'' \<and> \<not> HasPrefix r ''https://'' \<and>
    url_Parse r = Inr rel \<longrightarrow> ResolveURL b r = Inr (url_String (ResolveReference base rel)))"
  by (simp add: ResolveURL_def)

lemma example_base_parses:
  "url_Parse ''https://example.com/a/b?q=1'' =
     Inr (empty_URL\<lparr>Scheme := ''https'', Host := ''example.com'', Path := ''/a/b'',
                    RawQuery := ''q=1''\<rparr>)"
  by code_simp

lemma example_relative_parses:
  "url_Parse ''../c/./d?x=2#top'' =
     Inr (empty_URL\<lparr>Path := ''../c/./d'', RawQuery := ''x=2'', Fragment := ''top''\<rparr>)"
  by code_simp

lemma example_resolution:
  "url_String (ResolveReference
      (empty_URL\<lparr>Scheme := ''https'', Host := ''example.com'', Path := ''/a/b'',
                 RawQuery := ''q=1''\<rparr>)
      (empty_URL\<lparr>Path := ''../c/./d'', RawQuery := ''x=2'', Fragment := ''top''\<rparr>)) =
   ''https://example.com/c/d?x=2#top''"
  by code_simp

lemma example_prefixes:
  "HasPrefix ''https://example.org/z'' ''https://''"
  "\<not> HasPrefix ''../c/./d?x=2#top'' ''http://''"
  "\<not> HasPrefix ''../c/./d?x=2#top'' ''https://''"
  "\<not> HasPrefix ''http://[/x'' ''https://''"
  "\<not> HasPrefix ''//[/x'' ''http://''"
  "\<not> HasPrefix ''//[/x'' ''https://''"
  by code_simp+

lemma example_bad_urls:
  "url_Parse ''http://[/x'' = Inl MissingBracket"
  "url_Parse ''//[/x'' = Inl MissingBracket"
  by code_simp+

theorem ResolveURL_cases_witness:
  "ResolveURL ''http://[/x'' ''https://example.org/z'' = Inl MissingBracket \<and>
   ResolveURL ''https://example.com/a/b?q=1'' ''https://example.org/z'' = Inr ''https://example.org/z'' \<and>
   ResolveURL ''https://example.com/a/b?q=1'' ''//[/x'' = Inl MissingBracket \<and>
   ResolveURL ''https://example.com/a/b?q=1'' ''../c/./d?x=2#top'' =
     Inr ''https://example.com/c/d?x=2#top''"
  using
    ResolveURL_cases [of "''http://[/x''" MissingBracket "''https://example.org/z''"]
    ResolveURL_cases [of "''https://example.com/a/b?q=1''" MissingBracket "''https://example.org/z''"
      "empty_URL\<lparr>Scheme := ''https'', Host := ''example.com'', Path := ''/a/b'', RawQuery := ''q=1''\<rparr>"]
    ResolveURL_cases [of "''https://example.com/a/b?q=1''" MissingBracket "''//[/x''"
      "empty_URL\<lparr>Scheme := ''https'', Host := ''example.com'', Path := ''/a/b'', RawQuery := ''q=1''\<rparr>"]
    ResolveURL_cases [of "''https://example.com/a/b?q=1''" MissingBracket "''../c/./d?x=2#top''"
      "empty_URL\<lparr>Scheme := ''https'', Host := ''example.com'', Path := ''/a/b'', RawQuery := ''q=1''\<rparr>"
      "empty_URL\<lparr>Path := ''../c/./d'', RawQuery := ''x=2'', Fragment := ''top''\<rparr>"]
  by (simp only: example_base_parses example_relative_parses example_resolution
        example_prefixes example_bad_urls simp_thms sum.inject sum.distinct)

section \<open>Properties of the crawl engine\<close>

subsection \<open>Runs of the small site\<close>

lemma early_run:
  "(case run example_web early_schedule (New example_cfg) of
      None \<Rightarrow> False
    | Some c \<Rightarrow>
        jobs c = [\<lparr>url = ''https://example.com/a/'', depth = 1\<rparr>] \<and>
        map URL (results c) = [''https://example.com/''] \<and>
        map Depth (results c) = [0] \<and>
        map current_job (workers c) =
          [Some \<lparr>url = ''https://example.com/'', depth = 0\<rparr>, None] \<and>
        pendingJobs c = 2 \<and> closes c = 0)"
  by code_simp

lemma full_run:
  "(case run example_web full_schedule (New example_cfg) of
      None \<Rightarrow> False
    | Some c \<Rightarrow>
        map URL (results c) =
          [''https://example.com/'', ''https://example.com/a/'', ''https://example.com/b/'',
           ''https://example.com/c/''] \<and>
        map Depth (results c) = [0, 1, 1, 2] \<and>
        jobs c = [] \<and> main_pc c = M_Returned \<and> \<not> ctx_done c \<and>
        workers c = [W_Exit ExitChannelClosed, W_Exit ExitChannelClosed] \<and>
        pendingJobs c = 0 \<and> closes c = 1 \<and> jobs_closed c \<and>
        zero_crossings example_web full_schedule (New example_cfg) = 1)"
  by code_simp

lemma seed_normal_form:
  "NormalizeURL (StartURL example_cfg) = Inr ''https://example.com/''"
  "url_Parse ''https://example.com/'' =
     Inr (empty_URL\<lparr>Scheme := ''https'', Host := ''example.com'', Path := ''/''\<rparr>)"
  by code_simp+

lemma example_hosts:
  "map (\<lambda>u. map_sum id Host (url_Parse u))
     [''https://example.com/'', ''https://example.com/a/'', ''https://example.com/b/'',
      ''https://example.com/c/''] =
   [Inr ''example.com'', Inr ''example.com'', Inr ''example.com'', Inr ''example.com'']"
  by code_simp

subsection \<open>Depth\<close>

lemma w_ok_current_job:
  "w_ok D b w \<Longrightarrow> current_job w = Some j \<Longrightarrow> job_ok D b j"
  by (cases w) auto

text \<open>
  C3. In every state of every run, with \<open>D\<close> the effective maximum depth (the
  configured one, or 2 when that is not positive): every job in the queue and every
  job a worker holds has depth at most \<open>D\<close>, and so has every result. A job is in
  the queue right after it is created, so this covers every job ever created.
\<close>

theorem depth_bound:
  assumes "run net evs (New cfg) = Some c"
  shows "MaxDepth (config c) = (if MaxDepth cfg \<le> 0 then 2 else MaxDepth cfg) \<and>
         (\<forall>j\<in>set (jobs c). depth j \<le> (if MaxDepth cfg \<le> 0 then 2 else MaxDepth cfg)) \<and>
         (\<forall>w\<in>set (workers c). \<forall>j. current_job w = Some j \<longrightarrow>
             depth j \<le> (if MaxDepth cfg \<le> 0 then 2 else MaxDepth cfg)) \<and>
         (\<forall>r\<in>set (results c). Depth r \<le> (if MaxDepth cfg \<le> 0 then 2 else MaxDepth cfg))"
proof -
  from run_safe [OF assms] have cf: "config c = defaults cfg"
    and js: "list_all (job_ok (MaxDepth (defaults cfg)) (baseDomain c)) (jobs c)"
    and ws: "list_all (w_ok (MaxDepth (defaults cfg)) (baseDomain c)) (workers c)"
    and rs: "list_all (res_ok (MaxDepth (defaults cfg)) (baseDomain c)) (results c)"
    by (simp_all add: safe_def)
  have D: "MaxDepth (defaults cfg) = (if MaxDepth cfg \<le> 0 then 2 else MaxDepth cfg)"
    by (rule MaxDepth_defaults)
  from js have "\<forall>j\<in>set (jobs c). depth j \<le> MaxDepth (defaults cfg)"
    by (simp add: list_all_iff job_ok_def)
  moreover from ws have "\<forall>w\<in>set (workers c). \<forall>j. current_job w = Some j \<longrightarrow>
      depth j \<le> MaxDepth (defaults cfg)"
    by (auto simp: list_all_iff job_ok_def dest!: w_ok_current_job)
  moreover from rs have "\<forall>r\<in>set (results c). Depth r \<le> MaxDepth (defaults cfg)"
    by (simp add: list_all_iff res_ok_def)
  ultimately show ?thesis using cf D by simp
qed

theorem depth_bound_witness:
  "\<exists>c. run example_web early_schedule (New example_cfg) = Some c \<and>
       (if MaxDepth example_cfg \<le> 0 then 2 else MaxDepth example_cfg) = 2 \<and>
       MaxDepth (config c) = 2 \<and>
       map depth (jobs c) = [1] \<and>
       map current_job (workers c) = [Some \<lparr>url = ''https://example.com/'', depth = 0\<rparr>, None] \<and>
       map Depth (results c) = [0] \<and>
       (\<forall>j\<in>set (jobs c). depth j \<le> 2) \<and>
       (\<forall>r\<in>set (results c). Depth r \<le> 2)"
proof -
  from early_run obtain c where r: "run example_web early_schedule (New example_cfg) = Some c"
    and v: "jobs c = [\<lparr>url = ''https://example.com/a/'', depth = 1\<rparr>]"
      "map Depth (results c) = [0]"
      "map current_job (workers c) = [Some \<lparr>url = ''https://example.com/'', depth = 0\<rparr>, None]"
    by (auto split: option.splits)
  have D: "(if MaxDepth example_cfg \<le> 0 then 2 else MaxDepth example_cfg) = 2"
    by (simp add: example_cfg_def)
  from depth_bound [OF r] r v D show ?thesis by auto
qed

subsection \<open>Domain\<close>

text \<open>
  C4. In every state of every run, every result has a URL that parses and whose host
  is exactly the host of the normalized seed URL.
\<close>

theorem results_in_seed_domain:
  assumes "run net evs (New cfg) = Some c" and "r \<in> set (results c)"
  shows "\<exists>seed u p. NormalizeURL (StartURL cfg) = Inr seed \<and> url_Parse seed = Inr u \<and>
           url_Parse (URL r) = Inr p \<and> Host p = Host u"
proof -
  note s = run_safe [OF assms(1)]
  from s assms(2) have st: "started (main_pc c)"
    by (auto simp: safe_def split: if_splits)
  with s have n: "NormalizeURL (StartURL cfg) = Inr (startURL c)"
    and d: "in_domain (baseDomain c) (startURL c)"
    by (simp_all add: safe_def)
  from s assms(2) have "in_domain (baseDomain c) (URL r)"
    by (auto simp: safe_def list_all_iff res_ok_def)
  with n d show ?thesis
    by (auto simp: in_domain_def split: sum.splits)
qed

theorem results_in_seed_domain_witness:
  "\<exists>c r p. run example_web full_schedule (New example_cfg) = Some c \<and>
       map URL (results c) =
         [''https://example.com/'', ''https://example.com/a/'', ''https://example.com/b/'',
          ''https://example.com/c/''] \<and>
       r \<in> set (results c) \<and> URL r = ''https://example.com/c/'' \<and>
       NormalizeURL (StartURL example_cfg) = Inr ''https://example.com/'' \<and>
       url_Parse (URL r) = Inr p \<and> Host p = ''example.com''"
proof -
  from full_run obtain c where run: "run example_web full_schedule (New example_cfg) = Some c"
    and v: "map URL (results c) =
          [''https://example.com/'', ''https://example.com/a/'', ''https://example.com/b/'',
           ''https://example.com/c/'']"
    by (auto split: option.splits)
  from v have "''https://example.com/c/'' \<in> set (map URL (results c))" by simp
  then obtain r where r: "r \<in> set (results c)" "URL r = ''https://example.com/c/''" by auto
  from results_in_seed_domain [OF run r(1)] seed_normal_form r(2)
  obtain p where "url_Parse (URL r) = Inr p" "Host p = ''example.com''"
    by (auto simp: empty_URL_def)
  with run v r seed_normal_form(1) show ?thesis
    by (intro exI [of _ c] exI [of _ r] exI [of _ p] conjI)
qed

subsection \<open>Errors of a page\<close>

lemma error_run:
  "(case run example_web error_schedule (New example_cfg) of
      None \<Rightarrow> False
    | Some c \<Rightarrow>
        workers c = [W_Crawl \<lparr>url = ''https://example.com/missing/'', depth = 1\<rparr>, W_Start] \<and>
        fst (snd (crawlURL example_web (clock c) ''https://example.com/missing/'' 1)) =
          Some (UnexpectedStatus 404) \<and>
        pendingJobs c = 2 \<and> length (results c) = 3 \<and> main_pc c = M_Wait)"
  by code_simp

lemma crawlURL_error_iff:
  "fst (snd (crawlURL net t u d)) \<noteq> None \<longleftrightarrow>
     \<not> IsURLValid u \<or>
     (case net t u of
        Inl err \<Rightarrow> True
      | Inr resp \<Rightarrow>
          resp_StatusCode resp \<noteq> 200 \<or>
          \<not> Contains (ToLower (resp_ContentType resp)) ''text/html'' \<or>
          resp_Body resp = None)"
  by (auto simp: crawlURL_def Let_def split: sum.splits option.splits)

lemma run_snoc:
  "run net evs c0 = Some c \<Longrightarrow> step net ev c = Some c' \<Longrightarrow> run net (evs @ [ev]) c0 = Some c'"
  by (simp add: run_append)

text \<open>
  C7. A job fails exactly when its URL is invalid, the request fails, the status is
  not 200, the content type is not HTML or the body does not parse. In every state of
  every run, a worker that stands at such a job can take its step: it logs the error
  and goes to the decrement, with the results, the counter, the queue, the other
  workers, \<^verbatim>\<open>Start\<close> and the cancellation left as they are. A worker that stands
  at this decrement can take its step: the counter goes down by one, the results and
  the queue stay, the worker is back at the head of its loop, no other thread is
  touched, nothing panics and nothing is cancelled; the channel is closed by this
  step exactly when the job was the last pending one.
\<close>

theorem page_error_is_local:
  assumes "run net evs (New cfg) = Some c" and "i < length (workers c)"
  shows "(fst (snd (crawlURL net t u d)) \<noteq> None \<longleftrightarrow>
            \<not> IsURLValid u \<or>
            (case net t u of
               Inl err \<Rightarrow> True
             | Inr resp \<Rightarrow>
                 resp_StatusCode resp \<noteq> 200 \<or>
                 \<not> Contains (ToLower (resp_ContentType resp)) ''text/html'' \<or>
                 resp_Body resp = None)) \<and>
         (workers c ! i = W_Crawl j \<and>
          fst (snd (crawlURL net (clock c) (url j) (depth j))) = Some e \<longrightarrow>
            (\<exists>c1. step net (Step (WorkerT i)) c = Some c1 \<and>
                  workers c1 = (workers c)[i := W_ErrDec j] \<and>
                  LogErrorCrawling (url j) e \<in> set (logs c1) \<and>
                  results c1 = results c \<and> pendingJobs c1 = pendingJobs c \<and>
                  jobs c1 = jobs c \<and> main_pc c1 = main_pc c \<and>
                  ctx_done c1 = ctx_done c \<and> jobs_closed c1 = jobs_closed c \<and>
                  \<not> panicked c1)) \<and>
         (workers c ! i = W_ErrDec j \<longrightarrow>
            (\<exists>c2. step net (Step (WorkerT i)) c = Some c2 \<and>
                  workers c2 = (workers c)[i := W_Recv] \<and>
                  pendingJobs c2 = pendingJobs c - 1 \<and>
                  results c2 = results c \<and> jobs c2 = jobs c \<and> main_pc c2 = main_pc c \<and>
                  ctx_done c2 = ctx_done c \<and> \<not> panicked c2 \<and>
                  (jobs_closed c2 \<longleftrightarrow> pendingJobs c = 1)))"
proof (intro conjI impI)
  note d = countingD [OF run_counting [OF assms(1)]]
  show "fst (snd (crawlURL net t u d)) \<noteq> None \<longleftrightarrow>
            \<not> IsURLValid u \<or>
            (case net t u of
               Inl err \<Rightarrow> True
             | Inr resp \<Rightarrow>
                 resp_StatusCode resp \<noteq> 200 \<or>
                 \<not> Contains (ToLower (resp_ContentType resp)) ''text/html'' \<or>
                 resp_Body resp = None)"
    by (rule crawlURL_error_iff)
  show "\<exists>c1. step net (Step (WorkerT i)) c = Some c1 \<and>
                  workers c1 = (workers c)[i := W_ErrDec j] \<and>
                  LogErrorCrawling (url j) e \<in> set (logs c1) \<and>
                  results c1 = results c \<and> pendingJobs c1 = pendingJobs c \<and>
                  jobs c1 = jobs c \<and> main_pc c1 = main_pc c \<and>
                  ctx_done c1 = ctx_done c \<and> jobs_closed c1 = jobs_closed c \<and>
                  \<not> panicked c1"
    if "workers c ! i = W_Crawl j \<and>
        fst (snd (crawlURL net (clock c) (url j) (depth j))) = Some e"
  proof -
    from that obtain r lg where "crawlURL net (clock c) (url j) (depth j) = (r, Some e, lg)"
      by (cases "crawlURL net (clock c) (url j) (depth j)") auto
    with that assms(2) d(2) show ?thesis
      by (simp add: step_def put_worker_def)
  qed
  show "\<exists>c2. step net (Step (WorkerT i)) c = Some c2 \<and>
                  workers c2 = (workers c)[i := W_Recv] \<and>
                  pendingJobs c2 = pendingJobs c - 1 \<and>
                  results c2 = results c \<and> jobs c2 = jobs c \<and> main_pc c2 = main_pc c \<and>
                  ctx_done c2 = ctx_done c \<and> \<not> panicked c2 \<and>
                  (jobs_closed c2 \<longleftrightarrow> pendingJobs c = 1)"
    if w: "workers c ! i = W_ErrDec j"
  proof -
    from held_le_sum [OF assms(2)] w d(1) have "1 \<le> pendingJobs c"
      by (auto split: if_splits)
    with d(4) have nc: "\<not> jobs_closed c" by auto
    with w assms(2) d(2) show ?thesis
      by (simp add: step_def put_worker_def decrementPendingJobs_close)
  qed
qed

theorem page_error_is_local_witness:
  "\<exists>c c1 c2.
     run example_web error_schedule (New example_cfg) = Some c \<and>
     workers c ! 0 = W_Crawl \<lparr>url = ''https://example.com/missing/'', depth = 1\<rparr> \<and>
     fst (snd (crawlURL example_web (clock c) ''https://example.com/missing/'' 1)) =
       Some (UnexpectedStatus 404) \<and>
     step example_web (Step (WorkerT 0)) c = Some c1 \<and>
     workers c1 ! 0 = W_ErrDec \<lparr>url = ''https://example.com/missing/'', depth = 1\<rparr> \<and>
     LogErrorCrawling ''https://example.com/missing/'' (UnexpectedStatus 404) \<in> set (logs c1) \<and>
     step example_web (Step (WorkerT 0)) c1 = Some c2 \<and>
     workers c2 = [W_Recv, W_Start] \<and>
     pendingJobs c = 2 \<and> pendingJobs c2 = 1 \<and>
     results c2 = results c \<and> length (results c) = 3 \<and>
     \<not> panicked c2 \<and> \<not> jobs_closed c2 \<and> main_pc c2 = M_Wait"
proof -
  let ?j = "\<lparr>url = ''https://example.com/missing/'', depth = 1\<rparr>"
  from error_run obtain c where run: "run example_web error_schedule (New example_cfg) = Some c"
    and v: "workers c = [W_Crawl ?j, W_Start]"
      "fst (snd (crawlURL example_web (clock c) ''https://example.com/missing/'' 1)) =
         Some (UnexpectedStatus 404)"
      "pendingJobs c = 2" "length (results c) = 3" "main_pc c = M_Wait"
    by (auto split: option.splits)
  from v have i: "0 < length (workers c)" and w: "workers c ! 0 = W_Crawl ?j" by simp_all
  note T = page_error_is_local [OF run i, of 0 "''''" 0 ?j "UnexpectedStatus 404"]
  from T [THEN conjunct2, THEN conjunct1] w v(2)
  obtain c1 where s1: "step example_web (Step (WorkerT 0)) c = Some c1"
    and c1: "workers c1 = (workers c)[0 := W_ErrDec ?j]"
      "LogErrorCrawling ''https://example.com/missing/'' (UnexpectedStatus 404) \<in> set (logs c1)"
      "results c1 = results c" "pendingJobs c1 = pendingJobs c" "main_pc c1 = main_pc c"
    by auto
  from c1(1) v(1) have i1: "0 < length (workers c1)" and w1: "workers c1 ! 0 = W_ErrDec ?j"
    by simp_all
  note T1 = page_error_is_local [OF run_snoc [OF run s1] i1, of 0 "''''" 0 ?j
      "UnexpectedStatus 404"]
  from T1 [THEN conjunct2, THEN conjunct2] w1
  obtain c2 where s2: "step example_web (Step (WorkerT 0)) c1 = Some c2"
    and c2: "workers c2 = (workers c1)[0 := W_Recv]" "pendingJobs c2 = pendingJobs c1 - 1"
      "results c2 = results c1" "main_pc c2 = main_pc c1" "\<not> panicked c2"
      "jobs_closed c2 \<longleftrightarrow> pendingJobs c1 = 1"
    by auto
  from c1 c2 v have
    "workers c2 = [W_Recv, W_Start]" "pendingJobs c2 = 1" "results c2 = results c"
    "\<not> jobs_closed c2" "main_pc c2 = M_Wait"
    by simp_all
  with run w v s1 w1 c1(2) s2 c2(5) show ?thesis
    by (intro exI [of _ c] exI [of _ c1] exI [of _ c2] conjI)
qed

subsection \<open>The seed\<close>

lemma seed_race_run:
  "(case run example_web seed_race_schedule (New example_cfg) of
      None \<Rightarrow> False
    | Some c \<Rightarrow>
        main_pc c = M_Mark \<and>
        jobs c = [\<lparr>url = ''https://example.com/'', depth = 1\<rparr>] \<and>
        map current_job (workers c) = [Some \<lparr>url = ''https://example.com/'', depth = 0\<rparr>, None] \<and>
        pendingJobs c = 2)"
  by code_simp

text \<open>
  C8. \<^verbatim>\<open>Start\<close> seeds the first job in this order: it increments the pending counter,
  then sends the seed job to the queue, and only then marks the seed URL as seen.
  After its second step the counter is 1, the queue is empty and the seed is not
  marked; after the third the seed job is in the queue and the seed is still not
  marked; the fourth marks it.
\<close>

theorem Start_sends_before_marking:
  assumes "NormalizeURL (StartURL cfg) = Inr s" and "url_Parse s = Inr u"
  shows "\<exists>c2 c3 c4.
           run net [Step MainT, Step MainT] (New cfg) = Some c2 \<and>
           step net (Step MainT) c2 = Some c3 \<and>
           step net (Step MainT) c3 = Some c4 \<and>
           main_pc c2 = M_Send \<and> pendingJobs c2 = 1 \<and> jobs c2 = [] \<and> \<not> seen c2 s \<and>
           main_pc c3 = M_Mark \<and> pendingJobs c3 = 1 \<and>
           jobs c3 = [\<lparr>url = s, depth = 0\<rparr>] \<and> \<not> seen c3 s \<and>
           main_pc c4 = M_Wait \<and> jobs c4 = [\<lparr>url = s, depth = 0\<rparr>] \<and> seen c4 s"
  using assms
  by (simp add: step_def New_def send_job_def jobsCap_def)

theorem Start_sends_before_marking_witness:
  "\<exists>c2 c3 c4 c.
     run example_web [Step MainT, Step MainT] (New example_cfg) = Some c2 \<and>
     step example_web (Step MainT) c2 = Some c3 \<and>
     step example_web (Step MainT) c3 = Some c4 \<and>
     main_pc c2 = M_Send \<and> pendingJobs c2 = 1 \<and> jobs c2 = [] \<and>
     \<not> seen c2 ''https://example.com/'' \<and>
     main_pc c3 = M_Mark \<and> jobs c3 = [\<lparr>url = ''https://example.com/'', depth = 0\<rparr>] \<and>
     \<not> seen c3 ''https://example.com/'' \<and>
     main_pc c4 = M_Wait \<and> seen c4 ''https://example.com/'' \<and>
     run example_web seed_race_schedule (New example_cfg) = Some c \<and>
     main_pc c = M_Mark \<and> jobs c = [\<lparr>url = ''https://example.com/'', depth = 1\<rparr>]"
proof -
  from Start_sends_before_marking [OF seed_normal_form, of example_web]
  obtain c2 c3 c4 where
    "run example_web [Step MainT, Step MainT] (New example_cfg) = Some c2"
    "step example_web (Step MainT) c2 = Some c3"
    "step example_web (Step MainT) c3 = Some c4"
    "main_pc c2 = M_Send" "pendingJobs c2 = 1" "jobs c2 = []"
    "\<not> seen c2 ''https://example.com/''"
    "main_pc c3 = M_Mark" "jobs c3 = [\<lparr>url = ''https://example.com/'', depth = 0\<rparr>]"
    "\<not> seen c3 ''https://example.com/''"
    "main_pc c4 = M_Wait" "seen c4 ''https://example.com/''"
    by blast
  moreover from seed_race_run obtain c where
    "run example_web seed_race_schedule (New example_cfg) = Some c"
    "main_pc c = M_Mark" "jobs c = [\<lparr>url = ''https://example.com/'', depth = 1\<rparr>]"
    by (auto split: option.splits)
  ultimately show ?thesis
    by (intro exI [of _ c2] exI [of _ c3] exI [of _ c4] exI [of _ c] conjI)
qed

subsection \<open>The seen set\<close>

lemma race_run:
  "(case run example_web race_schedule (New example_cfg) of
      None \<Rightarrow> False
    | Some c \<Rightarrow>
        jobs c = [\<lparr>url = ''https://example.com/missing/'', depth = 1\<rparr>,
                  \<lparr>url = ''https://example.com/c/'', depth = 2\<rparr>,
                  \<lparr>url = ''https://example.com/c/'', depth = 2\<rparr>] \<and>
        workers c = [W_Links \<lparr>url = ''https://example.com/b/'', depth = 1\<rparr> [] 1,
                     W_Links \<lparr>url = ''https://example.com/a/'', depth = 1\<rparr> [] 1] \<and>
        pendingJobs c = 5)"
  by code_simp

text \<open>
  C2. The lookup in the seen set and the marking are two critical sections, and two
  workers can both look a link up before either marks it. On the small site, with two
  workers, there is a run in which the workers that crawl the pages \<open>a\<close> and \<open>b\<close>
  both find the link to \<open>c\<close> unseen, both mark it, both count it and both send it:
  the queue then holds the job for \<open>c\<close> twice and each worker has added one job.
\<close>

theorem same_link_sent_twice:
  "\<exists>c. run example_web race_schedule (New example_cfg) = Some c \<and>
       jobs c = [\<lparr>url = ''https://example.com/missing/'', depth = 1\<rparr>,
                 \<lparr>url = ''https://example.com/c/'', depth = 2\<rparr>,
                 \<lparr>url = ''https://example.com/c/'', depth = 2\<rparr>] \<and>
       workers c = [W_Links \<lparr>url = ''https://example.com/b/'', depth = 1\<rparr> [] 1,
                    W_Links \<lparr>url = ''https://example.com/a/'', depth = 1\<rparr> [] 1] \<and>
       pendingJobs c = 5"
  using race_run by (auto split: option.splits)

subsection \<open>The queue is closed when the counter reaches zero\<close>

lemma run_zero_crossings:
  "counting c0 \<Longrightarrow> run net evs c0 = Some c \<Longrightarrow>
     closes c = closes c0 + zero_crossings net evs c0"
proof (induction evs arbitrary: c0)
  case Nil
  then show ?case by simp
next
  case (Cons ev evs)
  from Cons.prems(2) obtain c1 where s: "step net ev c0 = Some c1" and r: "run net evs c1 = Some c"
    by (auto split: option.splits)
  from step_counting [OF s Cons.prems(1)] Cons.IH [OF _ r] s show ?case
    by (auto split: if_splits)
qed

lemma all_exited_closed:
  assumes "list_all (exit_ok a False) ws" and "all_exited ws"
  shows "\<forall>w\<in>set ws. w = W_Exit ExitChannelClosed" and "ws \<noteq> [] \<Longrightarrow> a"
proof -
  have *: "w = W_Exit ExitChannelClosed \<and> a" if "w \<in> set ws" for w
  proof -
    from that assms(1) have e: "exit_ok a False w" by (simp add: list_all_iff)
    from that obtain k where "k < length ws" "w = ws ! k" by (auto simp: in_set_conv_nth)
    with all_exited_nth [OF assms(2)] obtain r where "w = W_Exit r" by blast
    with e show ?thesis by (cases r) auto
  qed
  then show "\<forall>w\<in>set ws. w = W_Exit ExitChannelClosed" by blast
  show a if "ws \<noteq> []"
  proof -
    from that obtain w where "w \<in> set ws" by (cases ws) auto
    with * show ?thesis by blast
  qed
qed

text \<open>
  C1, amended. In every run, \<^verbatim>\<open>close(c.jobs)\<close> has been executed as many times as the
  pending counter has gone from a nonzero value to zero, which is at most once, and
  never on a closed channel; a step closes the channel when and only when it takes the
  counter from a nonzero value to zero; the counter is never negative and is zero
  once the channel is closed. When \<^verbatim>\<open>Start\<close> has returned and the run was not
  cancelled, every worker has left through the closed channel, the channel has been
  closed exactly once, the counter is zero and the queue is empty.
\<close>

theorem queue_closed_at_zero:
  assumes "run net evs (New cfg) = Some c"
  shows "closes c = zero_crossings net evs (New cfg) \<and> closes c \<le> 1 \<and> \<not> panicked c \<and>
         (jobs_closed c \<longleftrightarrow> closes c = 1) \<and> 0 \<le> pendingJobs c \<and>
         (jobs_closed c \<longrightarrow> pendingJobs c = 0) \<and>
         (\<forall>ev c'. step net ev c = Some c' \<longrightarrow>
            (closes c' = closes c + 1 \<longleftrightarrow> pendingJobs c \<noteq> 0 \<and> pendingJobs c' = 0) \<and>
            (closes c' \<noteq> closes c + 1 \<longrightarrow> closes c' = closes c)) \<and>
         (main_pc c = M_Returned \<and> \<not> ctx_done c \<longrightarrow>
            closes c = 1 \<and> pendingJobs c = 0 \<and> jobs c = [] \<and>
            (\<forall>w\<in>set (workers c). w = W_Exit ExitChannelClosed))"
proof -
  note cn = run_counting [OF assms]
  note d = countingD [OF cn]
  note l = leavingD [OF run_leaving [OF assms]]
  have z: "closes c = zero_crossings net evs (New cfg)"
    using run_zero_crossings [OF counting_New assms] by (simp add: New_def)
  have nn: "0 \<le> pendingJobs c" using d(1) by simp
  have st: "(closes c' = closes c + 1 \<longleftrightarrow> pendingJobs c \<noteq> 0 \<and> pendingJobs c' = 0) \<and>
            (closes c' \<noteq> closes c + 1 \<longrightarrow> closes c' = closes c)"
    if "step net ev c = Some c'" for ev c'
    using step_counting [OF that cn] by (auto split: if_splits)
  have fin: "closes c = 1 \<and> pendingJobs c = 0 \<and> jobs c = [] \<and>
            (\<forall>w\<in>set (workers c). w = W_Exit ExitChannelClosed)"
    if "main_pc c = M_Returned" "\<not> ctx_done c"
  proof -
    from that l(1) have e: "list_all (exit_ok (jobs_closed c) False) (workers c)" by simp
    from that l(3) have ne: "workers c \<noteq> []" by (simp add: started_def)
    from all_exited_closed [OF e l(2) [OF that]] ne
    have a: "\<forall>w\<in>set (workers c). w = W_Exit ExitChannelClosed" and jc: "jobs_closed c"
      by blast+
    from d(4) [OF jc] have p: "pendingJobs c = 0" by simp
    with d(1) have "int (length (jobs c)) = 0"
      by (smt (verit) of_nat_0_le_iff)
    with a jc p d(3) show ?thesis by simp
  qed
  from z d nn st fin show ?thesis
    by (auto split: if_splits)
qed

theorem queue_closed_at_zero_witness:
  "\<exists>c. run example_web full_schedule (New example_cfg) = Some c \<and>
       main_pc c = M_Returned \<and> \<not> ctx_done c \<and>
       zero_crossings example_web full_schedule (New example_cfg) = 1 \<and>
       closes c = 1 \<and> jobs_closed c \<and> \<not> panicked c \<and> pendingJobs c = 0 \<and> jobs c = [] \<and>
       workers c = [W_Exit ExitChannelClosed, W_Exit ExitChannelClosed]"
proof -
  from full_run obtain c where run: "run example_web full_schedule (New example_cfg) = Some c"
    and v: "main_pc c = M_Returned" "\<not> ctx_done c"
      "workers c = [W_Exit ExitChannelClosed, W_Exit ExitChannelClosed]"
      "zero_crossings example_web full_schedule (New example_cfg) = 1"
    by (auto split: option.splits)
  from queue_closed_at_zero [OF run] v(1,2,4)
  have "closes c = 1" "jobs_closed c" "\<not> panicked c" "pendingJobs c = 0" "jobs c = []"
    by auto
  with run v show ?thesis
    by (intro exI [of _ c] conjI)
qed


end
